theory Spec2Isabelle
  imports Main "HOL-Library.Sublist"
begin

section \<open>Python strings\<close>

text \<open>
  A Python \<open>str\<close> is a sequence of Unicode code points; \<open>len\<close> counts code points and
  \<open>==\<close> compares them one by one. The texts of the bot are Cyrillic with emoji, so a
  string is modelled as the list of its code points.
\<close>

type_synonym pystr = "nat list"

text \<open>
  \<open>str.isspace\<close>, which is also the whitespace of \<open>str.strip()\<close> and of \<open>\s\<close> in a
  \<open>str\<close> pattern of \<open>re\<close>: tab to carriage return, the four separators U+001C..U+001F,
  space, U+0085, U+00A0, U+1680, U+2000..U+200A, U+2028, U+2029, U+202F, U+205F, U+3000.
\<close>

definition is_space :: "nat \<Rightarrow> bool" where
  "is_space c = ((9 \<le> c \<and> c \<le> 13) \<or> (28 \<le> c \<and> c \<le> 32) \<or> c = 133 \<or> c = 160
     \<or> c = 5760 \<or> (8192 \<le> c \<and> c \<le> 8202) \<or> c = 8232 \<or> c = 8233 \<or> c = 8239
     \<or> c = 8287 \<or> c = 12288)"

definition strip :: "pystr \<Rightarrow> pystr" where
  "strip s = rev (dropWhile is_space (rev (dropWhile is_space s)))"

text \<open>
  The decimal digits of Unicode (general category Nd, the characters of \<open>str.isdecimal\<close>
  and of \<open>\d\<close>) come in runs of ten, zero to nine; the list holds the code point of the
  zero of each run (Unicode 14, the table of CPython 3.11). The first run is ASCII
  \<open>0\<close>..\<open>9\<close>.
\<close>

definition decimal_bases :: "nat list" where
  "decimal_bases = [48, 1632, 1776, 1984, 2406, 2534, 2662, 2790, 2918, 3046, 3174, 3302,
     3430, 3558, 3664, 3792, 3872, 4160, 4240, 6112, 6160, 6470, 6608, 6784, 6800, 6992,
     7088, 7232, 7248, 42528, 43216, 43264, 43472, 43504, 43600, 44016, 65296, 66720,
     68912, 69734, 69872, 69942, 70096, 70384, 70736, 70864, 71248, 71360, 71472, 71904,
     72016, 72784, 73040, 73120, 92768, 92864, 93008, 120782, 120792, 120802, 120812,
     120822, 123200, 123632, 125264, 130032]"

definition decimal_digit :: "nat \<Rightarrow> nat option" where
  "decimal_digit c = map_option (\<lambda>b. c - b) (find (\<lambda>b. b \<le> c \<and> c < b + 10) decimal_bases)"

definition is_decimal :: "nat \<Rightarrow> bool" where
  "is_decimal c = (decimal_digit c \<noteq> None)"

text \<open>
  The characters that \<open>str.isdigit\<close> accepts beyond the decimal digits (numeric type
  Digit: superscripts, subscripts, circled and parenthesised digits, ...). \<open>int()\<close> does
  not accept any of them.
\<close>

definition other_digit_ranges :: "(nat \<times> nat) list" where
  "other_digit_ranges = [(178, 179), (185, 185), (4969, 4977), (6618, 6618), (8304, 8304),
     (8308, 8313), (8320, 8329), (9312, 9320), (9332, 9340), (9352, 9360), (9450, 9450),
     (9461, 9469), (9471, 9471), (10102, 10110), (10112, 10120), (10122, 10130),
     (68160, 68163), (69216, 69224), (69714, 69722), (127232, 127242)]"

definition is_other_digit :: "nat \<Rightarrow> bool" where
  "is_other_digit c = list_ex (\<lambda>(lo, hi). lo \<le> c \<and> c \<le> hi) other_digit_ranges"

definition is_digit_char :: "nat \<Rightarrow> bool" where
  "is_digit_char c = (is_decimal c \<or> is_other_digit c)"

text \<open>\<open>str.isdigit\<close>: at least one character, and every character a digit.\<close>

definition isdigit :: "pystr \<Rightarrow> bool" where
  "isdigit s = (s \<noteq> [] \<and> list_all is_digit_char s)"

datatype py_error = ValueError | KeyError

text \<open>
  The value of a string of decimal digits in base ten, most significant digit first
  (a character that is no decimal digit counts as zero; \<open>int_of_digits\<close> below never
  reads the value of such a string).
\<close>

definition digit_val :: "nat \<Rightarrow> nat" where
  "digit_val c = (case decimal_digit c of Some d \<Rightarrow> d | None \<Rightarrow> 0)"

definition decimal_value :: "pystr \<Rightarrow> nat" where
  "decimal_value s = foldl (\<lambda>acc c. 10 * acc + digit_val c) 0 s"

text \<open>
  \<open>int(s)\<close> for a string that passed \<open>isdigit\<close> (so there is no sign, no whitespace
  and no underscore to parse): every character has to be a decimal digit, of any script,
  otherwise \<open>int\<close> raises \<open>ValueError\<close>. The optional limit of CPython 3.11 on the number
  of digits (4300 by default) is beyond the 4096 characters of a Telegram message and is
  not modelled.
\<close>

definition int_of_digits :: "pystr \<Rightarrow> py_error + nat" where
  "int_of_digits s = (if s \<noteq> [] \<and> list_all is_decimal s then Inr (decimal_value s)
     else Inl ValueError)"

section \<open>Validators\<close>

text \<open>
  \<open>validate_phone\<close> is \<open>re.match\<close> of \<open>^\+?[\d\s\-\(\)]{7,15}$\<close>: an optional plus sign,
  then 7 to 15 characters that are decimal digits, whitespace, hyphen or parentheses;
  \<open>$\<close> also matches before a newline that ends the string.
\<close>

definition phone_char :: "nat \<Rightarrow> bool" where
  "phone_char c = (is_decimal c \<or> is_space c \<or> c = 45 \<or> c = 40 \<or> c = 41)"

definition phone_body :: "pystr \<Rightarrow> bool" where
  "phone_body b = (7 \<le> length b \<and> length b \<le> 15 \<and> list_all phone_char b)"

definition validate_phone :: "pystr \<Rightarrow> bool" where
  "validate_phone phone =
     (let body = (case phone of [] \<Rightarrow> [] | c # r \<Rightarrow> if c = 43 then r else phone)
      in phone_body body \<or> (body \<noteq> [] \<and> last body = 10 \<and> phone_body (butlast body)))"

text \<open>
  \<open>validate_price\<close> is \<open>price.isdigit() and int(price) > 0\<close>; \<open>int\<close> is evaluated
  only when \<open>isdigit\<close> holds, and its \<open>ValueError\<close> leaves the validator.
\<close>

definition validate_price :: "pystr \<Rightarrow> py_error + bool" where
  "validate_price price =
     (if \<not> isdigit price then Inr False
      else case int_of_digits price of Inl e \<Rightarrow> Inl e | Inr n \<Rightarrow> Inr (0 < n))"

text \<open>\<open>validate_text(text, min_len, max_len)\<close>; the defaults of the source are 2 and 200.\<close>

definition validate_text :: "pystr \<Rightarrow> nat \<Rightarrow> nat \<Rightarrow> bool" where
  "validate_text t min_len max_len = (min_len \<le> length (strip t) \<and> length (strip t) \<le> max_len)"

section \<open>The texts the handlers compare with and build\<close>

text \<open>
  The button texts, as code points: \<open>tok_cancel\<close> is the cancel button of every keyboard
  but the last (cross mark, "Otmena"), \<open>tok_back\<close> the back button (left arrow,
  "Nazad"), \<open>tok_next\<close> the button that leaves the photo stage ("Dalee"),
  \<open>tok_no_info\<close> the "no information" button of the description stage and
  \<open>txt_no_info\<close> the text stored for it, \<open>tok_pickup\<close> and \<open>tok_courier\<close> the two
  delivery options ("Samovyvoz", "Dostavka"), \<open>tok_confirm\<close> and \<open>tok_cancel_confirm\<close>
  the two buttons of the confirmation keyboard ("Otpravit zayavku", cross mark
  "Otmenit"). The \<open>lbl_\<close> constants are the fixed pieces of the two listings.
\<close>

definition tok_cancel :: pystr where
  "tok_cancel = [10060, 32, 1054, 1090, 1084, 1077, 1085, 1072]"

definition tok_back :: pystr where
  "tok_back = [11013, 65039, 32, 1053, 1072, 1079, 1072, 1076]"

definition tok_next :: pystr where
  "tok_next = [128228, 32, 1044, 1072, 1083, 1077, 1077]"

definition tok_no_info :: pystr where
  "tok_no_info = [10060, 32, 1053, 1077, 1090, 32, 1080, 1085, 1092, 1086, 1088, 1084,
     1072, 1094, 1080, 1080]"

definition txt_no_info :: pystr where
  "txt_no_info = [1053, 1077, 1090, 32, 1080, 1085, 1092, 1086, 1088, 1084, 1072, 1094,
     1080, 1080]"

definition tok_pickup :: pystr where
  "tok_pickup = [128663, 32, 1057, 1072, 1084, 1086, 1074, 1099, 1074, 1086, 1079]"

definition tok_courier :: pystr where
  "tok_courier = [127978, 32, 1044, 1086, 1089, 1090, 1072, 1074, 1082, 1072]"

definition tok_confirm :: pystr where
  "tok_confirm = [9989, 32, 1054, 1090, 1087, 1088, 1072, 1074, 1080, 1090, 1100, 32,
     1079, 1072, 1103, 1074, 1082, 1091]"

definition tok_cancel_confirm :: pystr where
  "tok_cancel_confirm = [10060, 32, 1054, 1090, 1084, 1077, 1085, 1080, 1090, 1100]"

definition lbl_admin_head :: pystr where
  "lbl_admin_head = [128718, 32, 42, 1053, 1086, 1074, 1072, 1103, 32, 1079, 1072, 1103,
     1074, 1082, 1072, 33, 42, 10, 10]"

definition lbl_admin_user :: pystr where
  "lbl_admin_user = [128100, 32, 42, 1055, 1086, 1083, 1100, 1079, 1086, 1074, 1072, 1090,
     1077, 1083, 1100, 58, 42, 32]"

definition lbl_summary_head :: pystr where
  "lbl_summary_head = [128203, 32, 42, 1055, 1088, 1086, 1074, 1077, 1088, 1100, 1090,
     1077, 32, 1079, 1072, 1103, 1074, 1082, 1091, 58, 42, 10, 10]"

definition lbl_summary_user :: pystr where
  "lbl_summary_user = [128100, 32, 42, 1054, 1090, 1087, 1088, 1072, 1074, 1080, 1090,
     1077, 1083, 1100, 58, 42, 32]"

definition lbl_item :: pystr where
  "lbl_item = [128204, 32, 42, 1058, 1086, 1074, 1072, 1088, 58, 42, 32]"

definition lbl_category :: pystr where
  "lbl_category = [128230, 32, 42, 1050, 1072, 1090, 1077, 1075, 1086, 1088, 1080, 1103,
     58, 42, 32]"

definition lbl_description :: pystr where
  "lbl_description = [128221, 32, 42, 1054, 1087, 1080, 1089, 1072, 1085, 1080, 1077, 58,
     42, 32]"

definition lbl_price :: pystr where
  "lbl_price = [128176, 32, 42, 1062, 1077, 1085, 1072, 58, 42, 32]"

definition lbl_rub :: pystr where
  "lbl_rub = [32, 1088, 1091, 1073, 46, 10]"

definition lbl_city :: pystr where
  "lbl_city = [127961, 32, 42, 1043, 1086, 1088, 1086, 1076, 58, 42, 32]"

definition lbl_delivery :: pystr where
  "lbl_delivery = [128666, 32, 42, 1044, 1086, 1089, 1090, 1072, 1074, 1082, 1072, 58, 42,
     32]"

definition lbl_pickup :: pystr where
  "lbl_pickup = [10, 127968, 32, 42, 1040, 1076, 1088, 1077, 1089, 32, 1089, 1072, 1084,
     1086, 1074, 1099, 1074, 1086, 1079, 1072, 58, 42, 32]"

definition lbl_contacts :: pystr where
  "lbl_contacts = [10, 128222, 32, 42, 1050, 1086, 1085, 1090, 1072, 1082, 1090, 1099, 58,
     42, 32]"

definition lbl_summary_foot :: pystr where
  "lbl_summary_foot = [1053, 1072, 1078, 1084, 1080, 1090, 1077, 32, 42, 9989, 32, 1054,
     1090, 1087, 1088, 1072, 1074, 1080, 1090, 1100, 32, 1079, 1072, 1103, 1074, 1082,
     1091, 42, 32, 1076, 1083, 1103, 32, 1087, 1086, 1076, 1090, 1074, 1077, 1088, 1078,
     1076, 1077, 1085, 1080, 1103]"

section \<open>Session data, updates and replies\<close>

text \<open>
  The stages of the dialogue, \<open>range(11)\<close> in the source, and \<open>ConversationHandler.END\<close>.
\<close>

datatype state = START | CHOOSE_CATEGORY | GET_ITEM_NAME | GET_PHOTOS | GET_DESCRIPTION
  | GET_PRICE | GET_CITY | GET_DELIVERY | GET_PICKUP_ADDRESS | GET_CONTACTS | CONFIRM | END

text \<open>
  \<open>context.user_data\<close>, a dict. The source binds the key \<open>'photos'\<close> to a list of file
  ids and every other key to a \<open>str\<close>; the list is kept in a component of its own
  (\<open>None\<close>: the key is absent) and the other keys in the map \<open>entries\<close>.
\<close>

record user_data =
  entries :: "string \<rightharpoonup> pystr"
  photos :: "pystr list option"

definition ud_clear :: user_data where
  "ud_clear = \<lparr>entries = Map.empty, photos = None\<rparr>"

definition put :: "user_data \<Rightarrow> string \<Rightarrow> pystr \<Rightarrow> user_data" where
  "put ud k v = ud\<lparr>entries := (entries ud)(k \<mapsto> v)\<rparr>"

definition keys :: "user_data \<Rightarrow> string set" where
  "keys ud = dom (entries ud) \<union> (if photos ud = None then {} else {''photos''})"

text \<open>\<open>update.effective_user\<close>.\<close>

record tg_user =
  first_name :: pystr
  full_name :: pystr
  username :: "pystr option"

text \<open>
  \<open>update.message\<close>: a text without a leading bot command; a text that starts with a
  bot command (the name under which a \<open>CommandHandler\<close> looks it up, that is in lower
  case and without the name of the bot, and the text after the slash); or a photo (the
  file id of each of its sizes; its \<open>text\<close> is \<open>None\<close>). Edited messages and other
  kinds of update are not modelled.
\<close>

datatype message = TextMsg pystr | CommandMsg pystr pystr | PhotoMsg "pystr list"

fun msg_text :: "message \<Rightarrow> pystr option" where
  "msg_text (TextMsg t) = Some t"
| "msg_text (CommandMsg c b) = Some (47 # b)"
| "msg_text (PhotoMsg ps) = None"

fun msg_photo :: "message \<Rightarrow> pystr list" where
  "msg_photo (PhotoMsg ps) = ps"
| "msg_photo m = []"

record update =
  message :: message
  effective_user :: tg_user

text \<open>
  What a handler sends. The fixed texts of \<open>reply_text\<close> are named, one constructor for
  each text of the source; the two listings are built in full.
\<close>

datatype prompt = Greeting pystr | AskCategory | AskItemName | AskItemNameAgain
  | ItemNameInvalid | AskPhotos | NeedOnePhoto | PhotoReceived nat | PhotoLimit
  | AskDescription | DescriptionInvalid | AskPrice | PriceInvalid | AskCity | CityInvalid
  | AskDelivery | ChooseListedOption | AskPickupAddress | PickupAddressInvalid
  | AskContacts | AskContactsAgain | ContactsInvalid | Summary pystr | UseButtons
  | MissingData | Sent | Cancelled | GenericError

datatype action = Reply prompt | AdminMessage pystr | AdminMediaGroup "pystr list"

type_synonym result = "state \<times> user_data \<times> action list"

text \<open>
  The \<open>except Exception\<close> branch of every handler: \<open>error_handler\<close> sends the generic
  notice and the conversation ends; what the handler wrote before the exception stays.
\<close>

definition failed :: "user_data \<Rightarrow> result" where
  "failed ud = (END, ud, [Reply GenericError])"

section \<open>The handlers\<close>

text \<open>\<open>cancel\<close>: the data of the user are cleared and the conversation ends.\<close>

definition cancel :: "user_data \<Rightarrow> result" where
  "cancel ud = (END, ud_clear, [Reply Cancelled])"

definition start :: "tg_user \<Rightarrow> user_data \<Rightarrow> result" where
  "start u ud = (CHOOSE_CATEGORY, ud_clear, [Reply (Greeting (first_name u))])"

definition handle_category :: "pystr \<Rightarrow> user_data \<Rightarrow> result" where
  "handle_category t ud =
     (if t = tok_cancel then cancel ud
      else (GET_ITEM_NAME, put ud ''category'' t, [Reply AskItemName]))"

text \<open>
  The display name stored under \<open>'user_name'\<close>: the full name, followed by the user name
  in parentheses after an at sign when there is a (non-empty) user name.
\<close>

definition user_label :: "tg_user \<Rightarrow> pystr" where
  "user_label u = (case username u of
       None \<Rightarrow> full_name u
     | Some n \<Rightarrow> if n \<noteq> [] then full_name u @ [32, 40, 64] @ n @ [41] else full_name u)"

text \<open>
  \<open>handle_item_name\<close> calls \<open>validate_text\<close> with the text alone, that is with the
  default bounds 2 and 200, and on success writes three keys.
\<close>

definition handle_item_name :: "pystr \<Rightarrow> tg_user \<Rightarrow> user_data \<Rightarrow> result" where
  "handle_item_name t u ud =
     (if t = tok_back then (CHOOSE_CATEGORY, ud, [Reply AskCategory])
      else if t = tok_cancel then cancel ud
      else if \<not> validate_text t 2 200 then (GET_ITEM_NAME, ud, [Reply ItemNameInvalid])
      else (GET_PHOTOS,
            (put (put ud ''item_name'' t) ''user_name'' (user_label u))\<lparr>photos := Some []\<rparr>,
            [Reply AskPhotos]))"

text \<open>
  \<open>handle_photos\<close> serves texts and photos. A photo is stored under the file id of the
  last of its sizes, unless that id is stored already; the count decides only which
  reply is sent. A duplicate gets no reply.
\<close>

definition photo_list :: "user_data \<Rightarrow> pystr list" where
  "photo_list ud = (case photos ud of None \<Rightarrow> [] | Some ps \<Rightarrow> ps)"

definition handle_photos_text :: "pystr \<Rightarrow> user_data \<Rightarrow> result" where
  "handle_photos_text t ud =
     (if t = tok_back then (GET_ITEM_NAME, ud\<lparr>photos := None\<rparr>, [Reply AskItemNameAgain])
      else if t = tok_cancel then cancel (ud\<lparr>photos := None\<rparr>)
      else if t = tok_next then
        (if length (photo_list ud) < 1 then (GET_PHOTOS, ud, [Reply NeedOnePhoto])
         else (GET_DESCRIPTION, ud, [Reply AskDescription]))
      else (GET_PHOTOS, ud, []))"

definition handle_photos_photo :: "pystr list \<Rightarrow> user_data \<Rightarrow> result" where
  "handle_photos_photo sizes ud =
     (let stored = photo_list ud; photo = last sizes
      in if photo \<notin> set stored then
           (let count = length (stored @ [photo])
            in (GET_PHOTOS, ud\<lparr>photos := Some (stored @ [photo])\<rparr>,
                [Reply (if count \<le> 10 then PhotoReceived count else PhotoLimit)]))
         else (GET_PHOTOS, ud\<lparr>photos := Some stored\<rparr>, []))"

definition handle_photos :: "message \<Rightarrow> user_data \<Rightarrow> result" where
  "handle_photos m ud =
     (case msg_text m of
        Some (c # cs) \<Rightarrow> handle_photos_text (c # cs) ud
      | _ \<Rightarrow> if msg_photo m \<noteq> [] then handle_photos_photo (msg_photo m) ud
             else (GET_PHOTOS, ud, []))"

definition handle_description :: "pystr \<Rightarrow> user_data \<Rightarrow> result" where
  "handle_description t ud =
     (if t = tok_back then (GET_PHOTOS, ud, [Reply AskPhotos])
      else if t = tok_cancel then cancel ud
      else if t = tok_no_info then (GET_PRICE, put ud ''description'' txt_no_info, [Reply AskPrice])
      else if \<not> validate_text t 2 500 then (GET_DESCRIPTION, ud, [Reply DescriptionInvalid])
      else (GET_PRICE, put ud ''description'' t, [Reply AskPrice]))"

definition handle_price :: "pystr \<Rightarrow> user_data \<Rightarrow> result" where
  "handle_price t ud =
     (if t = tok_back then (GET_DESCRIPTION, ud, [Reply AskDescription])
      else if t = tok_cancel then cancel ud
      else case validate_price t of
             Inl e \<Rightarrow> failed ud
           | Inr ok \<Rightarrow> if \<not> ok then (GET_PRICE, ud, [Reply PriceInvalid])
                       else (GET_CITY, put ud ''price'' t, [Reply AskCity]))"

definition handle_city :: "pystr \<Rightarrow> user_data \<Rightarrow> result" where
  "handle_city t ud =
     (if t = tok_back then (GET_PRICE, ud, [Reply AskPrice])
      else if t = tok_cancel then cancel ud
      else if \<not> validate_text t 2 50 then (GET_CITY, ud, [Reply CityInvalid])
      else (GET_DELIVERY, put ud ''city'' t, [Reply AskDelivery]))"

definition handle_delivery :: "pystr \<Rightarrow> user_data \<Rightarrow> result" where
  "handle_delivery t ud =
     (if t = tok_back then (GET_CITY, ud, [Reply AskCity])
      else if t = tok_cancel then cancel ud
      else if t \<notin> set [tok_pickup, tok_courier] then (GET_DELIVERY, ud, [Reply ChooseListedOption])
      else if t = tok_pickup then (GET_PICKUP_ADDRESS, put ud ''delivery'' t, [Reply AskPickupAddress])
      else (GET_CONTACTS, put ud ''delivery'' t, [Reply AskContacts]))"

definition handle_pickup_address :: "pystr \<Rightarrow> user_data \<Rightarrow> result" where
  "handle_pickup_address t ud =
     (if t = tok_back then (GET_DELIVERY, ud, [Reply AskDelivery])
      else if t = tok_cancel then cancel ud
      else if \<not> validate_text t 5 200 then (GET_PICKUP_ADDRESS, ud, [Reply PickupAddressInvalid])
      else (GET_CONTACTS, put ud ''pickup_address'' t, [Reply AskContacts]))"

text \<open>
  The listing shown to the user and the one sent to the recipient are built alike and
  differ in their first line, in the label of the sender and in what follows the
  contacts. \<open>user_data['k']\<close> raises \<open>KeyError\<close> for an absent key; the description
  has a default and the pickup address is added when it is present and not empty.
\<close>

definition description_part :: "user_data \<Rightarrow> pystr" where
  "description_part ud = (case entries ud ''description'' of None \<Rightarrow> txt_no_info | Some d \<Rightarrow> d)"

definition pickup_part :: "user_data \<Rightarrow> pystr" where
  "pickup_part ud = (case entries ud ''pickup_address'' of
       None \<Rightarrow> []
     | Some a \<Rightarrow> if a \<noteq> [] then lbl_pickup @ a else [])"

definition listing :: "pystr \<Rightarrow> pystr \<Rightarrow> pystr \<Rightarrow> user_data \<Rightarrow> py_error + pystr" where
  "listing head sender foot ud =
     (case entries ud ''user_name'' of None \<Rightarrow> Inl KeyError | Some user_name \<Rightarrow>
     (case entries ud ''item_name'' of None \<Rightarrow> Inl KeyError | Some item_name \<Rightarrow>
     (case entries ud ''category'' of None \<Rightarrow> Inl KeyError | Some category \<Rightarrow>
     (case entries ud ''price'' of None \<Rightarrow> Inl KeyError | Some price \<Rightarrow>
     (case entries ud ''city'' of None \<Rightarrow> Inl KeyError | Some city \<Rightarrow>
     (case entries ud ''delivery'' of None \<Rightarrow> Inl KeyError | Some delivery \<Rightarrow>
     (case entries ud ''contacts'' of None \<Rightarrow> Inl KeyError | Some contacts \<Rightarrow>
        Inr (head @ sender @ user_name @ [10]
             @ lbl_item @ item_name @ [10]
             @ lbl_category @ category @ [10]
             @ lbl_description @ description_part ud @ [10]
             @ lbl_price @ price @ lbl_rub
             @ lbl_city @ city @ [10]
             @ lbl_delivery @ delivery
             @ pickup_part ud
             @ lbl_contacts @ contacts @ foot))))))))"

definition summary_text :: "user_data \<Rightarrow> py_error + pystr" where
  "summary_text ud = listing lbl_summary_head lbl_summary_user ([10, 10] @ lbl_summary_foot) ud"

definition admin_text :: "user_data \<Rightarrow> py_error + pystr" where
  "admin_text ud = listing lbl_admin_head lbl_admin_user [] ud"

text \<open>
  \<open>handle_contacts\<close> goes back to the pickup address or to the delivery choice, by the
  stored delivery. A valid phone is written before the listing is built, so it stays
  written when the listing raises.
\<close>

definition handle_contacts :: "pystr \<Rightarrow> user_data \<Rightarrow> result" where
  "handle_contacts t ud =
     (if t = tok_back then
        (if entries ud ''delivery'' = Some tok_pickup
         then (GET_PICKUP_ADDRESS, ud, [Reply AskPickupAddress])
         else (GET_DELIVERY, ud, [Reply AskDelivery]))
      else if t = tok_cancel then cancel ud
      else if \<not> validate_phone t then (GET_CONTACTS, ud, [Reply ContactsInvalid])
      else case summary_text (put ud ''contacts'' t) of
             Inl e \<Rightarrow> failed (put ud ''contacts'' t)
           | Inr s \<Rightarrow> (CONFIRM, put ud ''contacts'' t, [Reply (Summary s)]))"

definition required_fields :: "string list" where
  "required_fields = [''item_name'', ''category'', ''price'', ''city'', ''delivery'', ''contacts'']"

text \<open>
  \<open>confirm_application\<close>: the text to the recipient, then the photos (the first ten)
  when there is at least one, then the reply to the user; the data are cleared after
  that. The sends themselves belong to the transport and are taken to succeed.
\<close>

definition confirm_application :: "pystr \<Rightarrow> user_data \<Rightarrow> result" where
  "confirm_application t ud =
     (if t = tok_back then (GET_CONTACTS, ud, [Reply AskContactsAgain])
      else if t = tok_cancel_confirm then cancel ud
      else if t \<noteq> tok_confirm then (CONFIRM, ud, [Reply UseButtons])
      else if filter (\<lambda>k. entries ud k = None) required_fields \<noteq> []
        then (END, ud, [Reply MissingData])
      else case admin_text ud of
             Inl e \<Rightarrow> failed ud
           | Inr msg \<Rightarrow>
               (END, ud_clear,
                [AdminMessage msg]
                @ (if photo_list ud \<noteq> [] then [AdminMediaGroup (take 10 (photo_list ud))] else [])
                @ [Reply Sent]))"

section \<open>The conversation handler\<close>

text \<open>
  The conversation of one user in one chat, as \<open>main\<close> configures the
  \<open>ConversationHandler\<close> of python-telegram-bot: the current stage
  (\<open>None\<close> when no conversation is open) and the data of the user. An update is offered
  first to the entry point (the command \<open>start\<close>; \<open>allow_reentry\<close> is set), then to the
  handler of the current stage when its filter accepts the message, then to the
  fallbacks (the command \<open>cancel\<close> and the texts matching the pattern of the two cancel
  buttons); an update that nothing accepts is dropped. A handler that returns \<open>END\<close>
  closes the conversation. The filters: \<open>TEXT\<close> is a non-empty text, \<open>COMMAND\<close> a text
  that starts with a bot command, \<open>PHOTO\<close> a non-empty list of photo sizes.
\<close>

record conv =
  cur :: "state option"
  data :: user_data

definition conv_init :: conv where
  "conv_init = \<lparr>cur = None, data = ud_clear\<rparr>"

fun plain_text :: "message \<Rightarrow> pystr option" where
  "plain_text (TextMsg (c # cs)) = Some (c # cs)"
| "plain_text m = None"

fun is_command :: "pystr \<Rightarrow> message \<Rightarrow> bool" where
  "is_command name (CommandMsg c r) = (c = name)"
| "is_command name m = False"

definition cmd_start :: pystr where
  "cmd_start = [115, 116, 97, 114, 116]"

definition cmd_cancel :: pystr where
  "cmd_cancel = [99, 97, 110, 99, 101, 108]"

definition cancel_pattern :: "message \<Rightarrow> bool" where
  "cancel_pattern m = (case msg_text m of
       None \<Rightarrow> False
     | Some t \<Rightarrow> t \<in> set [tok_cancel, tok_cancel_confirm, tok_cancel @ [10], tok_cancel_confirm @ [10]])"

definition state_handler :: "state \<Rightarrow> update \<Rightarrow> user_data \<Rightarrow> result option" where
  "state_handler s u ud =
     (let m = message u; who = effective_user u
      in if s = GET_PHOTOS then
           (if msg_photo m \<noteq> [] \<or> (case msg_text m of Some (c # cs) \<Rightarrow> True | _ \<Rightarrow> False)
            then Some (handle_photos m ud) else None)
         else case plain_text m of
           None \<Rightarrow> None
         | Some t \<Rightarrow>
            (case s of
               CHOOSE_CATEGORY \<Rightarrow> Some (handle_category t ud)
             | GET_ITEM_NAME \<Rightarrow> Some (handle_item_name t who ud)
             | GET_DESCRIPTION \<Rightarrow> Some (handle_description t ud)
             | GET_PRICE \<Rightarrow> Some (handle_price t ud)
             | GET_CITY \<Rightarrow> Some (handle_city t ud)
             | GET_DELIVERY \<Rightarrow> Some (handle_delivery t ud)
             | GET_PICKUP_ADDRESS \<Rightarrow> Some (handle_pickup_address t ud)
             | GET_CONTACTS \<Rightarrow> Some (handle_contacts t ud)
             | CONFIRM \<Rightarrow> Some (confirm_application t ud)
             | _ \<Rightarrow> None))"

definition finish :: "result \<Rightarrow> conv \<times> action list" where
  "finish r = (case r of (s, ud, acts) \<Rightarrow>
     (\<lparr>cur = (if s = END then None else Some s), data = ud\<rparr>, acts))"

definition handle_update :: "conv \<Rightarrow> update \<Rightarrow> conv \<times> action list" where
  "handle_update c u =
     (if is_command cmd_start (message u) then finish (start (effective_user u) (data c))
      else case cur c of
        None \<Rightarrow> (c, [])
      | Some s \<Rightarrow>
         (case state_handler s u (data c) of
            Some r \<Rightarrow> finish r
          | None \<Rightarrow>
             if is_command cmd_cancel (message u) \<or> cancel_pattern (message u)
             then finish (cancel (data c)) else (c, [])))"

text \<open>A history of updates, and the conversations that some history leads to.\<close>

definition run :: "conv \<Rightarrow> update list \<Rightarrow> conv" where
  "run c us = foldl (\<lambda>c u. fst (handle_update c u)) c us"

inductive reachable :: "conv \<Rightarrow> bool" where
  reachable_init: "reachable conv_init"
| reachable_step: "reachable c \<Longrightarrow> reachable (fst (handle_update c u))"

section \<open>Vocabulary of the properties\<close>

text \<open>
  The validator of each stage as the table of stages of the specification states it:
  the item name a text of trimmed length 2 to 100, the description a text of trimmed
  length 2 to 500 or the "no information" button, the price a string of decimal digits
  whose value is greater than zero, the city a text of trimmed length 2 to 50, the
  pickup address one of 5 to 200, the contacts a phone. \<open>spec_rejects s t\<close> says that the
  validator of stage \<open>s\<close> rejects the text \<open>t\<close>. It is stated apart from the handlers, to
  be compared with what they do.
\<close>

fun spec_rejects :: "state \<Rightarrow> pystr \<Rightarrow> bool" where
  "spec_rejects GET_ITEM_NAME t = (\<not> validate_text t 2 100)"
| "spec_rejects GET_DESCRIPTION t = (\<not> validate_text t 2 500 \<and> t \<noteq> tok_no_info)"
| "spec_rejects GET_PRICE t = (\<not> (list_all is_decimal t \<and> 0 < decimal_value t))"
| "spec_rejects GET_CITY t = (\<not> validate_text t 2 50)"
| "spec_rejects GET_PICKUP_ADDRESS t = (\<not> validate_text t 5 200)"
| "spec_rejects GET_CONTACTS t = (\<not> validate_phone t)"
| "spec_rejects s t = False"

text \<open>The reply a handler sends when it asks for the input of its stage again.\<close>

fun error_notice :: "state \<Rightarrow> prompt" where
  "error_notice GET_ITEM_NAME = ItemNameInvalid"
| "error_notice GET_DESCRIPTION = DescriptionInvalid"
| "error_notice GET_PRICE = PriceInvalid"
| "error_notice GET_CITY = CityInvalid"
| "error_notice GET_PICKUP_ADDRESS = PickupAddressInvalid"
| "error_notice GET_CONTACTS = ContactsInvalid"
| "error_notice s = GenericError"

text \<open>The stages that have a handler, and the cancel button each handler compares with.\<close>

definition active :: "state \<Rightarrow> bool" where
  "active s = (s \<noteq> START \<and> s \<noteq> END)"

definition cancel_token :: "state \<Rightarrow> pystr" where
  "cancel_token s = (if s = CONFIRM then tok_cancel_confirm else tok_cancel)"

text \<open>
  Where the back button leads from each stage but the first, and the prompt sent there.
\<close>

fun back_target :: "state \<Rightarrow> user_data \<Rightarrow> state" where
  "back_target GET_ITEM_NAME ud = CHOOSE_CATEGORY"
| "back_target GET_PHOTOS ud = GET_ITEM_NAME"
| "back_target GET_DESCRIPTION ud = GET_PHOTOS"
| "back_target GET_PRICE ud = GET_DESCRIPTION"
| "back_target GET_CITY ud = GET_PRICE"
| "back_target GET_DELIVERY ud = GET_CITY"
| "back_target GET_PICKUP_ADDRESS ud = GET_DELIVERY"
| "back_target GET_CONTACTS ud =
     (if entries ud ''delivery'' = Some tok_pickup then GET_PICKUP_ADDRESS else GET_DELIVERY)"
| "back_target CONFIRM ud = GET_CONTACTS"
| "back_target s ud = s"

fun back_prompt :: "state \<Rightarrow> prompt" where
  "back_prompt CHOOSE_CATEGORY = AskCategory"
| "back_prompt GET_ITEM_NAME = AskItemNameAgain"
| "back_prompt GET_PHOTOS = AskPhotos"
| "back_prompt GET_DESCRIPTION = AskDescription"
| "back_prompt GET_PRICE = AskPrice"
| "back_prompt GET_CITY = AskCity"
| "back_prompt GET_DELIVERY = AskDelivery"
| "back_prompt GET_PICKUP_ADDRESS = AskPickupAddress"
| "back_prompt GET_CONTACTS = AskContactsAgain"
| "back_prompt s = GenericError"

definition has_back :: "state \<Rightarrow> bool" where
  "has_back s = (active s \<and> s \<noteq> CHOOSE_CATEGORY)"



text \<open>
  What reaches the recipient: the texts sent to it, and the photos of the media groups
  sent to it.
\<close>

fun admin_messages :: "action list \<Rightarrow> pystr list" where
  "admin_messages [] = []"
| "admin_messages (AdminMessage t # as) = t # admin_messages as"
| "admin_messages (a # as) = admin_messages as"

fun image_refs :: "action list \<Rightarrow> pystr list" where
  "image_refs [] = []"
| "image_refs (AdminMediaGroup ps # as) = ps @ image_refs as"
| "image_refs (a # as) = image_refs as"

text \<open>
  A user, updates of that user, and histories of one listing: up to the item name, up
  to the photos, up to the city (the price is entered), up to the confirmation; and
  eleven different photos.
\<close>

definition sample_user :: tg_user where
  "sample_user = \<lparr>first_name = [65, 110, 110], full_name = [65, 110, 110, 32, 66],
     username = Some [97, 110, 110]\<rparr>"

definition text_update :: "pystr \<Rightarrow> update" where
  "text_update t = \<lparr>message = TextMsg t, effective_user = sample_user\<rparr>"

definition photo_update :: "pystr \<Rightarrow> update" where
  "photo_update p = \<lparr>message = PhotoMsg [p], effective_user = sample_user\<rparr>"

definition start_update :: update where
  "start_update = \<lparr>message = CommandMsg cmd_start cmd_start, effective_user = sample_user\<rparr>"

definition to_item_name :: "update list" where
  "to_item_name = [start_update, text_update [67, 111, 105, 110, 115]]"

definition to_photos :: "update list" where
  "to_photos = to_item_name @ [text_update [79, 108, 100, 32, 82, 117, 98, 108, 101]]"

definition to_city :: "update list" where
  "to_city = to_photos @ [photo_update [65], text_update tok_next, text_update tok_no_info,
     text_update [53, 48, 48]]"

definition to_confirm :: "update list" where
  "to_confirm = to_city @ [text_update [84, 111, 119, 110], text_update tok_pickup,
     text_update [49, 32, 77, 97, 105, 110, 32, 83, 116],
     text_update [43, 55, 57, 49, 54, 49, 50, 51, 52, 53, 54, 55]]"

definition eleven_refs :: "pystr list" where
  "eleven_refs = [[65], [66], [67], [68], [69], [70], [71], [72], [73], [74], [75]]"

definition eleven_photos :: "update list" where
  "eleven_photos = map photo_update eleven_refs"

text \<open>
  What holds of the data whenever the conversation is at the contacts or at the
  confirmation: a delivery by pickup comes with a pickup address that is not empty; and
  at the confirmation the sender and the six required fields are present.
\<close>

definition pickup_has_address :: "user_data \<Rightarrow> bool" where
  "pickup_has_address ud = (entries ud ''delivery'' = Some tok_pickup \<longrightarrow>
     (\<exists>a. entries ud ''pickup_address'' = Some a \<and> a \<noteq> []))"

definition complete :: "user_data \<Rightarrow> bool" where
  "complete ud = (\<forall>k \<in> set (''user_name'' # required_fields). entries ud k \<noteq> None)"

definition session_inv :: "conv \<Rightarrow> bool" where
  "session_inv c = ((cur c = Some GET_CONTACTS \<or> cur c = Some CONFIRM \<longrightarrow> pickup_has_address (data c))
     \<and> (cur c = Some CONFIRM \<longrightarrow> complete (data c)))"

section \<open>Evaluation and dispatch lemmas\<close>

lemmas token_defs = tok_cancel_def tok_back_def tok_next_def tok_no_info_def tok_pickup_def
  tok_courier_def tok_confirm_def tok_cancel_confirm_def

lemmas digit_defs = isdigit_def is_digit_char_def is_decimal_def decimal_digit_def
  decimal_bases_def is_other_digit_def other_digit_ranges_def int_of_digits_def
  decimal_value_def digit_val_def

lemma neq_by_length: "length a \<noteq> length b \<Longrightarrow> a \<noteq> b"
  by auto

lemma dispatch_text:
  assumes "t \<noteq> []"
  shows "handle_update \<lparr>cur = Some s, data = ud\<rparr> \<lparr>message = TextMsg t, effective_user = u\<rparr> =
    (case s of
       CHOOSE_CATEGORY \<Rightarrow> finish (handle_category t ud)
     | GET_ITEM_NAME \<Rightarrow> finish (handle_item_name t u ud)
     | GET_PHOTOS \<Rightarrow> finish (handle_photos_text t ud)
     | GET_DESCRIPTION \<Rightarrow> finish (handle_description t ud)
     | GET_PRICE \<Rightarrow> finish (handle_price t ud)
     | GET_CITY \<Rightarrow> finish (handle_city t ud)
     | GET_DELIVERY \<Rightarrow> finish (handle_delivery t ud)
     | GET_PICKUP_ADDRESS \<Rightarrow> finish (handle_pickup_address t ud)
     | GET_CONTACTS \<Rightarrow> finish (handle_contacts t ud)
     | CONFIRM \<Rightarrow> finish (confirm_application t ud)
     | _ \<Rightarrow> if cancel_pattern (TextMsg t) then finish (cancel ud)
            else (\<lparr>cur = Some s, data = ud\<rparr>, []))"
proof -
  from assms obtain c cs where t: "t = c # cs" by (cases t) auto
  show ?thesis unfolding t
    by (cases s) (simp_all add: handle_update_def state_handler_def handle_photos_def)
qed

lemma dispatch_photo:
  assumes "ps \<noteq> []"
  shows "handle_update \<lparr>cur = Some GET_PHOTOS, data = ud\<rparr> \<lparr>message = PhotoMsg ps, effective_user = u\<rparr>
    = finish (handle_photos_photo ps ud)"
  using assms by (simp add: handle_update_def state_handler_def handle_photos_def)

lemma strip_id:
  assumes ne: "s \<noteq> []" and h: "\<not> is_space (hd s)" and l: "\<not> is_space (last s)"
  shows "strip s = s"
proof -
  from ne h have 1: "dropWhile is_space s = s" by (cases s) auto
  from ne l have "dropWhile is_space (rev s) = rev s" by (cases "rev s") (auto simp: hd_rev)
  with 1 show ?thesis by (simp add: strip_def)
qed

lemma strip_replicate: "\<not> is_space c \<Longrightarrow> strip (replicate n c) = replicate n c"
proof (cases n)
  case 0 then show ?thesis by (simp add: strip_def)
next
  case (Suc m)
  assume c: "\<not> is_space c"
  have "replicate n c \<noteq> []" using Suc by simp
  moreover have "hd (replicate n c) = c" using Suc by simp
  moreover have "last (replicate n c) = c" using Suc by (simp del: replicate_Suc)
  ultimately show ?thesis using c by (simp add: strip_id del: replicate_Suc)
qed

section \<open>The price validator\<close>

lemma decimal_is_digit: "is_decimal c \<Longrightarrow> is_digit_char c"
  by (simp add: is_digit_char_def)

lemma decimal_value_pos_nonempty: "0 < decimal_value s \<Longrightarrow> s \<noteq> []"
  by (auto simp: decimal_value_def)

lemma ascii_digit_decimal: "48 \<le> c \<Longrightarrow> c \<le> 57 \<Longrightarrow> decimal_digit c = Some (c - 48)"
  by (simp add: decimal_digit_def decimal_bases_def)

lemma price_step:
  assumes "t \<noteq> []" "t \<noteq> tok_back" "t \<noteq> tok_cancel"
  shows "handle_update \<lparr>cur = Some GET_PRICE, data = ud\<rparr> \<lparr>message = TextMsg t, effective_user = u\<rparr>
   = (case validate_price t of
        Inl e \<Rightarrow> (\<lparr>cur = None, data = ud\<rparr>, [Reply GenericError])
      | Inr ok \<Rightarrow> if ok then (\<lparr>cur = Some GET_CITY, data = put ud ''price'' t\<rparr>, [Reply AskCity])
                 else (\<lparr>cur = Some GET_PRICE, data = ud\<rparr>, [Reply PriceInvalid]))"
  using assms
  by (simp add: dispatch_text handle_price_def failed_def finish_def split: sum.splits)

text \<open>
  A superscript two passes \<open>isdigit\<close> and is no decimal digit: \<open>int\<close> raises, and the price
  stage ends the conversation with the generic notice.
\<close>

lemma validate_price_superscript: "validate_price [178] = Inl ValueError"
  by (simp add: validate_price_def digit_defs)

text \<open>
  C7. \<open>validate_price\<close> returns \<open>True\<close> exactly for the strings that consist of decimal
  digits only and whose value is greater than zero, where a decimal digit is a decimal
  digit of Unicode (the digits \<open>int\<close> reads, ASCII \<open>0\<close>..\<open>9\<close> among them) and the empty
  string has the value zero. At the price stage the texts \<open>0\<close>, \<open>-5\<close> and \<open>12a\<close> are
  answered with the error notice and the stage stays; \<open>007\<close> is stored and the stage
  moves on to the city.
\<close>

theorem validate_price_spec:
  "(validate_price s = Inr True) = (list_all is_decimal s \<and> 0 < decimal_value s)
   \<and> handle_update \<lparr>cur = Some GET_PRICE, data = ud\<rparr> \<lparr>message = TextMsg [48], effective_user = u\<rparr>
       = (\<lparr>cur = Some GET_PRICE, data = ud\<rparr>, [Reply PriceInvalid])
   \<and> handle_update \<lparr>cur = Some GET_PRICE, data = ud\<rparr> \<lparr>message = TextMsg [45, 53], effective_user = u\<rparr>
       = (\<lparr>cur = Some GET_PRICE, data = ud\<rparr>, [Reply PriceInvalid])
   \<and> handle_update \<lparr>cur = Some GET_PRICE, data = ud\<rparr> \<lparr>message = TextMsg [49, 50, 97], effective_user = u\<rparr>
       = (\<lparr>cur = Some GET_PRICE, data = ud\<rparr>, [Reply PriceInvalid])
   \<and> handle_update \<lparr>cur = Some GET_PRICE, data = ud\<rparr> \<lparr>message = TextMsg [48, 48, 55], effective_user = u\<rparr>
       = (\<lparr>cur = Some GET_CITY, data = put ud ''price'' [48, 48, 55]\<rparr>, [Reply AskCity])"
proof -
  have iff: "(validate_price s = Inr True) = (list_all is_decimal s \<and> 0 < decimal_value s)"
  proof
    assume "validate_price s = Inr True"
    then show "list_all is_decimal s \<and> 0 < decimal_value s"
      by (auto simp: validate_price_def int_of_digits_def split: if_splits)
  next
    assume b: "list_all is_decimal s \<and> 0 < decimal_value s"
    then have ne: "s \<noteq> []" using decimal_value_pos_nonempty by blast
    from b have "list_all is_digit_char s"
      by (auto simp: list_all_iff decimal_is_digit)
    with ne b show "validate_price s = Inr True"
      by (simp add: validate_price_def isdigit_def int_of_digits_def)
  qed
  have v0: "validate_price [48] = Inr False"
    by (simp add: validate_price_def digit_defs)
  have v1: "validate_price [45, 53] = Inr False"
    by (simp add: validate_price_def digit_defs)
  have v2: "validate_price [49, 50, 97] = Inr False"
    by (simp add: validate_price_def digit_defs)
  have v3: "validate_price [48, 48, 55] = Inr True"
    by (simp add: validate_price_def digit_defs)
  have s0: "handle_update \<lparr>cur = Some GET_PRICE, data = ud\<rparr> \<lparr>message = TextMsg [48], effective_user = u\<rparr>
       = (\<lparr>cur = Some GET_PRICE, data = ud\<rparr>, [Reply PriceInvalid])"
    by (subst price_step) (simp_all add: v0 token_defs)
  have s1: "handle_update \<lparr>cur = Some GET_PRICE, data = ud\<rparr> \<lparr>message = TextMsg [45, 53], effective_user = u\<rparr>
       = (\<lparr>cur = Some GET_PRICE, data = ud\<rparr>, [Reply PriceInvalid])"
    by (subst price_step) (simp_all add: v1 token_defs)
  have s2: "handle_update \<lparr>cur = Some GET_PRICE, data = ud\<rparr> \<lparr>message = TextMsg [49, 50, 97], effective_user = u\<rparr>
       = (\<lparr>cur = Some GET_PRICE, data = ud\<rparr>, [Reply PriceInvalid])"
    by (subst price_step) (simp_all add: v2 token_defs)
  have s3: "handle_update \<lparr>cur = Some GET_PRICE, data = ud\<rparr> \<lparr>message = TextMsg [48, 48, 55], effective_user = u\<rparr>
       = (\<lparr>cur = Some GET_CITY, data = put ud ''price'' [48, 48, 55]\<rparr>, [Reply AskCity])"
    by (subst price_step) (simp_all add: v3 token_defs)
  from iff s0 s1 s2 s3 show ?thesis by blast
qed

theorem validate_price_spec_witness:
  "list_all is_decimal [1633, 50] \<and> 0 < decimal_value [1633, 50]
   \<and> validate_price [1633, 50] = Inr True"
proof -
  have h: "list_all is_decimal [1633, 50] \<and> 0 < decimal_value [1633, 50]"
    by (simp add: digit_defs)
  with validate_price_spec [of "[1633, 50]"] show ?thesis by blast
qed

section \<open>The name of the item\<close>

lemma item_name_step:
  assumes "t \<noteq> []" "t \<noteq> tok_back" "t \<noteq> tok_cancel"
  shows "handle_update \<lparr>cur = Some GET_ITEM_NAME, data = ud\<rparr> \<lparr>message = TextMsg t, effective_user = u\<rparr>
    = (if validate_text t 2 200
       then (\<lparr>cur = Some GET_PHOTOS,
              data = (put (put ud ''item_name'' t) ''user_name'' (user_label u))\<lparr>photos := Some []\<rparr>\<rparr>,
             [Reply AskPhotos])
       else (\<lparr>cur = Some GET_ITEM_NAME, data = ud\<rparr>, [Reply ItemNameInvalid]))"
  using assms by (simp add: dispatch_text handle_item_name_def finish_def)

text \<open>
  C5. The handler of the item name calls \<open>validate_text\<close> with its default bounds, 2 and
  200, while its prompt and its error notice announce 2 to 100: a name of 150 letters
  \<open>a\<close> (trimmed length 150) is stored and the stage moves on to the photos.
\<close>

theorem item_name_accepts_150:
  "handle_update \<lparr>cur = Some GET_ITEM_NAME, data = ud\<rparr>
     \<lparr>message = TextMsg (replicate 150 97), effective_user = u\<rparr>
   = (\<lparr>cur = Some GET_PHOTOS,
       data = (put (put ud ''item_name'' (replicate 150 97)) ''user_name'' (user_label u))
                \<lparr>photos := Some []\<rparr>\<rparr>,
      [Reply AskPhotos])
   \<and> length (strip (replicate 150 97)) = 150"
proof -
  have sp: "strip (replicate 150 97) = replicate 150 97"
    by (rule strip_replicate) (simp add: is_space_def)
  have len: "length (replicate 150 (97::nat)) = 150" by (rule length_replicate)
  have l8: "length tok_back = 8" "length tok_cancel = 8" "length ([]::pystr) = 0"
    by (simp_all add: token_defs)
  have nb1: "replicate 150 (97::nat) \<noteq> tok_back"
    apply (rule neq_by_length) unfolding len l8 by simp
  have nb2: "replicate 150 (97::nat) \<noteq> tok_cancel"
    apply (rule neq_by_length) unfolding len l8 by simp
  have ne: "replicate 150 (97::nat) \<noteq> []"
    apply (rule neq_by_length) unfolding len l8 by simp
  have vt: "validate_text (replicate 150 97) 2 200"
    unfolding validate_text_def sp len by simp
  show ?thesis unfolding item_name_step[OF ne nb1 nb2] sp len using vt by simp
qed

theorem item_name_accepts_150_witness:
  "cur (fst (handle_update \<lparr>cur = Some GET_ITEM_NAME, data = ud_clear\<rparr>
       (text_update (replicate 150 97)))) = Some GET_PHOTOS
   \<and> entries (data (fst (handle_update \<lparr>cur = Some GET_ITEM_NAME, data = ud_clear\<rparr>
       (text_update (replicate 150 97))))) ''item_name'' = Some (replicate 150 97)"
proof -
  note e = item_name_accepts_150 [of ud_clear sample_user, THEN conjunct1]
  show ?thesis unfolding text_update_def e by (simp add: put_def)
qed

section \<open>One text at one stage\<close>

lemma category_step:
  assumes "t \<noteq> []"
  shows "handle_update \<lparr>cur = Some CHOOSE_CATEGORY, data = ud\<rparr> \<lparr>message = TextMsg t, effective_user = u\<rparr>
    = (if t = tok_cancel then (conv_init, [Reply Cancelled])
       else (\<lparr>cur = Some GET_ITEM_NAME, data = put ud ''category'' t\<rparr>, [Reply AskItemName]))"
  using assms
  by (simp add: dispatch_text handle_category_def cancel_def finish_def conv_init_def)

lemma delivery_step:
  assumes "t \<noteq> []" "t \<noteq> tok_back" "t \<noteq> tok_cancel"
  shows "handle_update \<lparr>cur = Some GET_DELIVERY, data = ud\<rparr> \<lparr>message = TextMsg t, effective_user = u\<rparr>
    = (if t = tok_pickup
       then (\<lparr>cur = Some GET_PICKUP_ADDRESS, data = put ud ''delivery'' t\<rparr>, [Reply AskPickupAddress])
       else if t = tok_courier
       then (\<lparr>cur = Some GET_CONTACTS, data = put ud ''delivery'' t\<rparr>, [Reply AskContacts])
       else (\<lparr>cur = Some GET_DELIVERY, data = ud\<rparr>, [Reply ChooseListedOption]))"
  using assms by (simp add: dispatch_text handle_delivery_def finish_def)

text \<open>
  C9. At the category stage every text other than the cancel button is stored as the
  category, whatever it is, and the stage moves on to the item name. At the delivery
  stage a text that is neither of the two options (nor the back or the cancel button) is
  answered with a request to choose a listed option: the stage stays and nothing is
  written.
\<close>

theorem category_free_text_delivery_enforced:
  "(t \<noteq> [] \<and> t \<noteq> tok_cancel \<longrightarrow>
      handle_update \<lparr>cur = Some CHOOSE_CATEGORY, data = ud\<rparr> \<lparr>message = TextMsg t, effective_user = u\<rparr>
      = (\<lparr>cur = Some GET_ITEM_NAME, data = ud\<lparr>entries := (entries ud)(''category'' \<mapsto> t)\<rparr>\<rparr>,
         [Reply AskItemName]))
   \<and> (t \<noteq> [] \<and> t \<noteq> tok_back \<and> t \<noteq> tok_cancel \<and> t \<noteq> tok_pickup \<and> t \<noteq> tok_courier \<longrightarrow>
      handle_update \<lparr>cur = Some GET_DELIVERY, data = ud\<rparr> \<lparr>message = TextMsg t, effective_user = u\<rparr>
      = (\<lparr>cur = Some GET_DELIVERY, data = ud\<rparr>, [Reply ChooseListedOption]))"
proof (intro conjI impI)
  assume "t \<noteq> [] \<and> t \<noteq> tok_cancel"
  then show "handle_update \<lparr>cur = Some CHOOSE_CATEGORY, data = ud\<rparr> \<lparr>message = TextMsg t, effective_user = u\<rparr>
      = (\<lparr>cur = Some GET_ITEM_NAME, data = ud\<lparr>entries := (entries ud)(''category'' \<mapsto> t)\<rparr>\<rparr>,
         [Reply AskItemName])"
    by (simp add: category_step put_def)
next
  assume "t \<noteq> [] \<and> t \<noteq> tok_back \<and> t \<noteq> tok_cancel \<and> t \<noteq> tok_pickup \<and> t \<noteq> tok_courier"
  then show "handle_update \<lparr>cur = Some GET_DELIVERY, data = ud\<rparr> \<lparr>message = TextMsg t, effective_user = u\<rparr>
      = (\<lparr>cur = Some GET_DELIVERY, data = ud\<rparr>, [Reply ChooseListedOption])"
    by (simp add: delivery_step)
qed

theorem category_free_text_delivery_enforced_witness:
  "[104, 105] \<noteq> [] \<and> [104, 105] \<noteq> tok_back \<and> [104, 105] \<noteq> tok_cancel
   \<and> [104, 105] \<noteq> tok_pickup \<and> [104, 105] \<noteq> tok_courier
   \<and> cur (fst (handle_update \<lparr>cur = Some CHOOSE_CATEGORY, data = ud_clear\<rparr> (text_update [104, 105])))
      = Some GET_ITEM_NAME
   \<and> entries (data (fst (handle_update \<lparr>cur = Some CHOOSE_CATEGORY, data = ud_clear\<rparr>
        (text_update [104, 105])))) ''category'' = Some [104, 105]
   \<and> handle_update \<lparr>cur = Some GET_DELIVERY, data = ud_clear\<rparr> (text_update [104, 105])
      = (\<lparr>cur = Some GET_DELIVERY, data = ud_clear\<rparr>, [Reply ChooseListedOption])"
proof -
  have h: "[104, 105] \<noteq> ([]::pystr) \<and> [104, 105] \<noteq> tok_back \<and> [104, 105] \<noteq> tok_cancel
     \<and> [104, 105] \<noteq> tok_pickup \<and> [104, 105] \<noteq> tok_courier"
    by (simp add: token_defs)
  note th = category_free_text_delivery_enforced [of "[104, 105]" ud_clear sample_user]
  from th h have 1: "handle_update \<lparr>cur = Some CHOOSE_CATEGORY, data = ud_clear\<rparr>
      \<lparr>message = TextMsg [104, 105], effective_user = sample_user\<rparr>
      = (\<lparr>cur = Some GET_ITEM_NAME,
          data = ud_clear\<lparr>entries := (entries ud_clear)(''category'' \<mapsto> [104, 105])\<rparr>\<rparr>,
         [Reply AskItemName])" by blast
  from th h have 2: "handle_update \<lparr>cur = Some GET_DELIVERY, data = ud_clear\<rparr>
      \<lparr>message = TextMsg [104, 105], effective_user = sample_user\<rparr>
      = (\<lparr>cur = Some GET_DELIVERY, data = ud_clear\<rparr>, [Reply ChooseListedOption])" by blast
  from 1 2 h show ?thesis unfolding text_update_def by simp
qed

section \<open>Rejected input\<close>

lemma validate_price_true_iff:
  "(validate_price t = Inr True) = (list_all is_decimal t \<and> 0 < decimal_value t)"
proof
  assume "validate_price t = Inr True"
  then show "list_all is_decimal t \<and> 0 < decimal_value t"
    by (auto simp: validate_price_def int_of_digits_def split: if_splits)
next
  assume b: "list_all is_decimal t \<and> 0 < decimal_value t"
  then have ne: "t \<noteq> []" using decimal_value_pos_nonempty by blast
  from b have "list_all is_digit_char t"
    by (auto simp: list_all_iff decimal_is_digit)
  with ne b show "validate_price t = Inr True"
    by (simp add: validate_price_def isdigit_def int_of_digits_def)
qed

lemma validate_price_cases:
  "validate_price t = Inr True \<or> validate_price t = Inr False \<or> validate_price t = Inl ValueError"
  by (auto simp: validate_price_def int_of_digits_def)

lemma spec_rejects_price:
  assumes "spec_rejects GET_PRICE t" and "validate_price t \<noteq> Inl ValueError"
  shows "validate_price t = Inr False"
proof -
  from assms(1) have "validate_price t \<noteq> Inr True"
    by (simp add: validate_price_true_iff)
  with assms(2) validate_price_cases[of t] show ?thesis by blast
qed

lemma reprompt_step:
  assumes r: "spec_rejects s t" and ne: "t \<noteq> []" and nb: "t \<noteq> tok_back" and nc: "t \<noteq> tok_cancel"
    and n1: "\<not> (s = GET_ITEM_NAME \<and> validate_text t 2 200)"
    and n2: "\<not> (s = GET_PRICE \<and> validate_price t = Inl ValueError)"
  shows "handle_update \<lparr>cur = Some s, data = ud\<rparr> \<lparr>message = TextMsg t, effective_user = u\<rparr>
    = (\<lparr>cur = Some s, data = ud\<rparr>, [Reply (error_notice s)])"
proof (cases s)
  case GET_DESCRIPTION
  with r nb nc show ?thesis
    by (simp add: dispatch_text[OF ne] handle_description_def finish_def)
next
  case GET_PRICE
  with r n2 have "validate_price t = Inr False" by (simp add: spec_rejects_price)
  with GET_PRICE nb nc show ?thesis
    by (simp add: dispatch_text[OF ne] handle_price_def finish_def)
next
  case GET_ITEM_NAME
  with n1 nb nc show ?thesis
    by (simp add: dispatch_text[OF ne] handle_item_name_def finish_def)
next
  case GET_CITY
  with r nb nc show ?thesis
    by (simp add: dispatch_text[OF ne] handle_city_def finish_def)
next
  case GET_PICKUP_ADDRESS
  with r nb nc show ?thesis
    by (simp add: dispatch_text[OF ne] handle_pickup_address_def finish_def)
next
  case GET_CONTACTS
  with r nb nc show ?thesis
    by (simp add: dispatch_text[OF ne] handle_contacts_def finish_def)
qed (use r in simp_all)

lemma name_150:
  "replicate 150 (97::nat) \<noteq> [] \<and> replicate 150 (97::nat) \<noteq> tok_back
   \<and> replicate 150 (97::nat) \<noteq> tok_cancel \<and> strip (replicate 150 97) = replicate 150 97
   \<and> length (replicate 150 (97::nat)) = 150"
proof -
  have sp: "strip (replicate 150 97) = replicate 150 97"
    by (rule strip_replicate) (simp add: is_space_def)
  have len: "length (replicate 150 (97::nat)) = 150" by (rule length_replicate)
  have l8: "length tok_back = 8" "length tok_cancel = 8" "length ([]::pystr) = 0"
    by (simp_all add: token_defs)
  have nb1: "replicate 150 (97::nat) \<noteq> tok_back"
    apply (rule neq_by_length) unfolding len l8 by simp
  have nb2: "replicate 150 (97::nat) \<noteq> tok_cancel"
    apply (rule neq_by_length) unfolding len l8 by simp
  have ne: "replicate 150 (97::nat) \<noteq> []"
    apply (rule neq_by_length) unfolding len l8 by simp
  from sp len nb1 nb2 ne show ?thesis by blast
qed

text \<open>
  C6. The claim fails on the code at two inputs that the validator of the stage
  rejects. At the price stage a superscript two is no string of decimal digits, yet it
  passes \<open>isdigit\<close> and \<open>int\<close> raises on it: the handler ends the conversation with the
  generic notice instead of asking for the price again. At the item name stage a name
  of 150 letters is longer than the 100 of the stage, yet the handler checks it against
  the default bound 200, stores it and moves on to the photos. For every other rejected
  text that is not the back or the cancel button the claim holds: the error notice of
  the stage is sent, and the stage and the data stay as they are.
\<close>

theorem rejected_input_two_failures:
  "spec_rejects GET_PRICE [178]
   \<and> handle_update \<lparr>cur = Some GET_PRICE, data = ud\<rparr> \<lparr>message = TextMsg [178], effective_user = u\<rparr>
      = (\<lparr>cur = None, data = ud\<rparr>, [Reply GenericError])
   \<and> spec_rejects GET_ITEM_NAME (replicate 150 97)
   \<and> handle_update \<lparr>cur = Some GET_ITEM_NAME, data = ud\<rparr>
        \<lparr>message = TextMsg (replicate 150 97), effective_user = u\<rparr>
      = (\<lparr>cur = Some GET_PHOTOS,
          data = ud\<lparr>entries := (entries ud)(''item_name'' \<mapsto> replicate 150 97,
                                            ''user_name'' \<mapsto> user_label u),
                    photos := Some []\<rparr>\<rparr>,
         [Reply AskPhotos])
   \<and> (spec_rejects s t \<and> t \<noteq> [] \<and> t \<noteq> tok_back \<and> t \<noteq> tok_cancel
        \<and> \<not> (s = GET_ITEM_NAME \<and> validate_text t 2 200)
        \<and> \<not> (s = GET_PRICE \<and> validate_price t = Inl ValueError) \<longrightarrow>
      handle_update \<lparr>cur = Some s, data = ud\<rparr> \<lparr>message = TextMsg t, effective_user = u\<rparr>
      = (\<lparr>cur = Some s, data = ud\<rparr>, [Reply (error_notice s)]))"
proof (intro conjI impI)
  show "spec_rejects GET_PRICE [178]"
    by (simp add: is_decimal_def decimal_digit_def decimal_bases_def)
next
  have v: "validate_price [178] = Inl ValueError"
    by (simp add: validate_price_def digit_defs)
  have n: "[178] \<noteq> ([]::pystr)" "[178] \<noteq> tok_back" "[178] \<noteq> tok_cancel"
    by (simp_all add: token_defs)
  show "handle_update \<lparr>cur = Some GET_PRICE, data = ud\<rparr> \<lparr>message = TextMsg [178], effective_user = u\<rparr>
      = (\<lparr>cur = None, data = ud\<rparr>, [Reply GenericError])"
    by (simp add: price_step[OF n] v)
next
  from name_150 show "spec_rejects GET_ITEM_NAME (replicate 150 97)"
    by (simp add: validate_text_def)
next
  from name_150 have vt: "validate_text (replicate 150 97) 2 200"
    by (simp add: validate_text_def)
  from name_150 have n: "replicate 150 (97::nat) \<noteq> []" "replicate 150 (97::nat) \<noteq> tok_back"
    "replicate 150 (97::nat) \<noteq> tok_cancel" by blast+
  show "handle_update \<lparr>cur = Some GET_ITEM_NAME, data = ud\<rparr>
        \<lparr>message = TextMsg (replicate 150 97), effective_user = u\<rparr>
      = (\<lparr>cur = Some GET_PHOTOS,
          data = ud\<lparr>entries := (entries ud)(''item_name'' \<mapsto> replicate 150 97,
                                            ''user_name'' \<mapsto> user_label u),
                    photos := Some []\<rparr>\<rparr>,
         [Reply AskPhotos])"
    unfolding item_name_step[OF n] using vt by (simp add: put_def)
next
  assume "spec_rejects s t \<and> t \<noteq> [] \<and> t \<noteq> tok_back \<and> t \<noteq> tok_cancel
        \<and> \<not> (s = GET_ITEM_NAME \<and> validate_text t 2 200)
        \<and> \<not> (s = GET_PRICE \<and> validate_price t = Inl ValueError)"
  then show "handle_update \<lparr>cur = Some s, data = ud\<rparr> \<lparr>message = TextMsg t, effective_user = u\<rparr>
      = (\<lparr>cur = Some s, data = ud\<rparr>, [Reply (error_notice s)])"
    by (intro reprompt_step) simp_all
qed

theorem rejected_input_two_failures_witness:
  "spec_rejects GET_PRICE [178]
   \<and> handle_update \<lparr>cur = Some GET_PRICE, data = ud_clear\<rparr> (text_update [178])
      = (\<lparr>cur = None, data = ud_clear\<rparr>, [Reply GenericError])
   \<and> spec_rejects GET_ITEM_NAME (replicate 150 97)
   \<and> cur (fst (handle_update \<lparr>cur = Some GET_ITEM_NAME, data = ud_clear\<rparr>
        (text_update (replicate 150 97)))) = Some GET_PHOTOS
   \<and> spec_rejects GET_CONTACTS [49, 50, 51] \<and> [49, 50, 51] \<noteq> [] \<and> [49, 50, 51] \<noteq> tok_back
   \<and> [49, 50, 51] \<noteq> tok_cancel
   \<and> handle_update \<lparr>cur = Some GET_CONTACTS, data = ud_clear\<rparr> (text_update [49, 50, 51])
      = (\<lparr>cur = Some GET_CONTACTS, data = ud_clear\<rparr>, [Reply ContactsInvalid])"
proof -
  have h: "spec_rejects GET_CONTACTS [49, 50, 51] \<and> [49, 50, 51] \<noteq> ([]::pystr)
     \<and> [49, 50, 51] \<noteq> tok_back \<and> [49, 50, 51] \<noteq> tok_cancel"
    by (simp add: validate_phone_def phone_body_def token_defs)
  note th = rejected_input_two_failures [of ud_clear sample_user GET_CONTACTS "[49, 50, 51]"]
  from th have 1: "spec_rejects GET_PRICE [178]" by (rule conjunct1)
  from th have 2: "handle_update \<lparr>cur = Some GET_PRICE, data = ud_clear\<rparr>
      \<lparr>message = TextMsg [178], effective_user = sample_user\<rparr>
      = (\<lparr>cur = None, data = ud_clear\<rparr>, [Reply GenericError])" by blast
  from th have 3: "spec_rejects GET_ITEM_NAME (replicate 150 97)" by blast
  from th have 4: "cur (fst (handle_update \<lparr>cur = Some GET_ITEM_NAME, data = ud_clear\<rparr>
        \<lparr>message = TextMsg (replicate 150 97), effective_user = sample_user\<rparr>)) = Some GET_PHOTOS"
    by (simp del: replicate.simps)
  from th h have 5: "handle_update \<lparr>cur = Some GET_CONTACTS, data = ud_clear\<rparr>
      \<lparr>message = TextMsg [49, 50, 51], effective_user = sample_user\<rparr>
      = (\<lparr>cur = Some GET_CONTACTS, data = ud_clear\<rparr>, [Reply ContactsInvalid])"
    by simp
  from 1 2 3 4 5 h show ?thesis unfolding text_update_def by blast
qed

section \<open>Cancelling\<close>

lemma cancel_token_text:
  assumes "active s"
  shows "handle_update \<lparr>cur = Some s, data = ud\<rparr>
           \<lparr>message = TextMsg (cancel_token s), effective_user = u\<rparr> = (conv_init, [Reply Cancelled])"
proof -
  have ne: "cancel_token s \<noteq> []" by (simp add: cancel_token_def token_defs)
  have d: "tok_cancel \<noteq> tok_back" "tok_cancel_confirm \<noteq> tok_back"
    by (simp_all add: token_defs)
  from assms show ?thesis
    unfolding dispatch_text[OF ne]
    by (cases s)
       (simp_all add: active_def cancel_token_def d handle_category_def handle_item_name_def
          handle_photos_text_def handle_description_def handle_price_def handle_city_def
          handle_delivery_def handle_pickup_address_def handle_contacts_def
          confirm_application_def cancel_def finish_def conv_init_def)
qed

lemma closed_conversation:
  "handle_update conv_init \<lparr>message = m, effective_user = u\<rparr>
   = (if is_command cmd_start m
      then (\<lparr>cur = Some CHOOSE_CATEGORY, data = ud_clear\<rparr>, [Reply (Greeting (first_name u))])
      else (conv_init, []))"
  by (simp add: handle_update_def conv_init_def start_def finish_def)

text \<open>
  C2 as the code has it. Every stage has a cancel button: the same text at every stage
  before the confirmation, another text at the confirmation. At every stage the cancel
  button of that stage clears the data, ends the conversation and is answered with the
  notice of cancellation. After that an update that is not the command \<open>start\<close> finds no
  conversation: nothing changes and nothing is sent; the command \<open>start\<close> opens a new
  conversation at the category stage.
\<close>

theorem stage_cancel_ends_session:
  assumes "active s"
  shows "handle_update \<lparr>cur = Some s, data = ud\<rparr>
           \<lparr>message = TextMsg (cancel_token s), effective_user = u\<rparr> = (conv_init, [Reply Cancelled])
    \<and> (\<not> is_command cmd_start m \<longrightarrow>
         handle_update conv_init \<lparr>message = m, effective_user = u\<rparr> = (conv_init, []))
    \<and> handle_update conv_init \<lparr>message = CommandMsg cmd_start r, effective_user = u\<rparr>
       = (\<lparr>cur = Some CHOOSE_CATEGORY, data = ud_clear\<rparr>, [Reply (Greeting (first_name u))])"
  using cancel_token_text[OF assms] by (simp add: closed_conversation)

theorem stage_cancel_ends_session_witness:
  "active CONFIRM \<and> \<not> is_command cmd_start (TextMsg tok_confirm)
   \<and> handle_update \<lparr>cur = Some CONFIRM, data = put ud_clear ''city'' [84, 111]\<rparr>
        (text_update tok_cancel_confirm) = (conv_init, [Reply Cancelled])
   \<and> handle_update conv_init (text_update tok_confirm) = (conv_init, [])"
proof -
  have a: "active CONFIRM" by (simp add: active_def)
  have c: "cancel_token CONFIRM = tok_cancel_confirm" by (simp add: cancel_token_def)
  have n: "\<not> is_command cmd_start (TextMsg tok_confirm)" by simp
  from stage_cancel_ends_session [OF a, of "put ud_clear ''city'' [84, 111]" sample_user
      "TextMsg tok_confirm"] a n
  show ?thesis unfolding text_update_def c by blast
qed

text \<open>
  The cancel button of the earlier stages is no cancel button at the confirmation, where
  it is answered with the request to use the buttons; the cancel button of the
  confirmation is stored as the category at the category stage.
\<close>

theorem universal_cancel_counterexample:
  "handle_update \<lparr>cur = Some CONFIRM, data = ud_clear\<rparr> (text_update tok_cancel)
     = (\<lparr>cur = Some CONFIRM, data = ud_clear\<rparr>, [Reply UseButtons])
   \<and> handle_update \<lparr>cur = Some CHOOSE_CATEGORY, data = ud_clear\<rparr> (text_update tok_cancel_confirm)
     = (\<lparr>cur = Some GET_ITEM_NAME, data = put ud_clear ''category'' tok_cancel_confirm\<rparr>,
        [Reply AskItemName])"
proof -
  have ne: "tok_cancel \<noteq> []" "tok_cancel_confirm \<noteq> []" "tok_cancel \<noteq> tok_back"
    "tok_cancel \<noteq> tok_cancel_confirm" "tok_cancel \<noteq> tok_confirm"
    "tok_cancel_confirm \<noteq> tok_cancel"
    by (simp_all add: token_defs)
  show ?thesis unfolding text_update_def
    by (simp add: dispatch_text ne confirm_application_def handle_category_def finish_def)
qed

section \<open>Going back\<close>

text \<open>
  C3 as the code has it. At every stage but the first, the back button moves the
  conversation to the backward target of the stage and sends the prompt of that
  target. The data of the user are left as they are, so a field that the stage wrote on
  an earlier visit stays; the photo stage alone removes its key.
\<close>

theorem back_keeps_fields:
  assumes "has_back s"
  shows "handle_update \<lparr>cur = Some s, data = ud\<rparr> \<lparr>message = TextMsg tok_back, effective_user = u\<rparr>
    = (\<lparr>cur = Some (back_target s ud),
        data = (if s = GET_PHOTOS then ud\<lparr>photos := None\<rparr> else ud)\<rparr>,
       [Reply (back_prompt (back_target s ud))])"
proof -
  have ne: "tok_back \<noteq> []" by (simp add: token_defs)
  from assms show ?thesis
    unfolding dispatch_text[OF ne]
    by (cases s)
       (simp_all add: has_back_def active_def handle_item_name_def
          handle_photos_text_def handle_description_def handle_price_def handle_city_def
          handle_delivery_def handle_pickup_address_def handle_contacts_def
          confirm_application_def finish_def)
qed

theorem back_keeps_fields_witness:
  "has_back GET_PRICE
   \<and> handle_update \<lparr>cur = Some GET_PRICE, data = put ud_clear ''price'' [53, 48, 48]\<rparr>
        (text_update tok_back)
      = (\<lparr>cur = Some GET_DESCRIPTION, data = put ud_clear ''price'' [53, 48, 48]\<rparr>,
         [Reply AskDescription])"
proof -
  have h: "has_back GET_PRICE" by (simp add: has_back_def active_def)
  from back_keeps_fields [OF h, of "put ud_clear ''price'' [53, 48, 48]" sample_user] h
  show ?thesis unfolding text_update_def by simp
qed

section \<open>Histories\<close>

lemma run_append: "run c (us @ vs) = run (run c us) vs"
  by (simp add: run_def)

lemma run_snoc: "run c (us @ [u]) = fst (handle_update (run c us) u)"
  by (simp add: run_def)

lemma reachable_run: "reachable c \<Longrightarrow> reachable (run c us)"
proof (induction us rule: rev_induct)
  case Nil
  then show ?case by (simp add: run_def)
next
  case (snoc u us)
  then show ?case unfolding run_snoc by (blast intro: reachable_step)
qed

lemma run_to_item_name:
  "run conv_init to_item_name
   = \<lparr>cur = Some GET_ITEM_NAME, data = put ud_clear ''category'' [67, 111, 105, 110, 115]\<rparr>"
  by (simp add: run_def to_item_name_def start_update_def text_update_def closed_conversation
      category_step token_defs)

lemma run_to_photos:
  "run conv_init to_photos
   = \<lparr>cur = Some GET_PHOTOS,
      data = (put (put (put ud_clear ''category'' [67, 111, 105, 110, 115])
                ''item_name'' [79, 108, 100, 32, 82, 117, 98, 108, 101])
                ''user_name'' [65, 110, 110, 32, 66, 32, 40, 64, 97, 110, 110, 41])
             \<lparr>photos := Some []\<rparr>\<rparr>"
  unfolding to_photos_def run_snoc run_to_item_name
  by (simp add: text_update_def item_name_step token_defs validate_text_def strip_def
      is_space_def user_label_def sample_user_def)

lemma run_to_city:
  "run conv_init to_city
   = \<lparr>cur = Some GET_CITY,
      data = (put (put ((put (put (put ud_clear ''category'' [67, 111, 105, 110, 115])
                ''item_name'' [79, 108, 100, 32, 82, 117, 98, 108, 101])
                ''user_name'' [65, 110, 110, 32, 66, 32, 40, 64, 97, 110, 110, 41])
                \<lparr>photos := Some [[65]]\<rparr>)
                ''description'' txt_no_info)
                ''price'' [53, 48, 48])\<rparr>"
proof -
  have v: "validate_price [53, 48, 48] = Inr True"
    by (simp add: validate_price_def digit_defs)
  show ?thesis
    unfolding to_city_def run_append run_to_photos
    by (simp add: run_def text_update_def photo_update_def dispatch_text dispatch_photo
        handle_price_def v handle_photos_photo_def handle_photos_text_def handle_description_def
        photo_list_def put_def finish_def token_defs)
qed

lemma run_to_confirm:
  "run conv_init to_confirm
   = \<lparr>cur = Some CONFIRM,
      data = put (put (put (put (data (run conv_init to_city))
                ''city'' [84, 111, 119, 110])
                ''delivery'' tok_pickup)
                ''pickup_address'' [49, 32, 77, 97, 105, 110, 32, 83, 116])
                ''contacts'' [43, 55, 57, 49, 54, 49, 50, 51, 52, 53, 54, 55]\<rparr>"
proof -
  have p: "validate_phone [43, 55, 57, 49, 54, 49, 50, 51, 52, 53, 54, 55]"
    by (simp add: validate_phone_def phone_body_def phone_char_def is_decimal_def
        decimal_digit_def decimal_bases_def)
  show ?thesis
    unfolding to_confirm_def run_append run_to_city
    by (simp add: run_def text_update_def dispatch_text
        handle_city_def handle_delivery_def handle_pickup_address_def handle_contacts_def
        p summary_text_def listing_def
        validate_text_def strip_def is_space_def put_def finish_def token_defs)
qed

text \<open>
  A session enters a price and reaches the city stage; the back button leads to the
  price stage, and the back button again leads from the price stage to the description
  stage. The price entered before is still stored.
\<close>

theorem back_rollback_counterexample:
  "cur (run conv_init (to_city @ [text_update tok_back])) = Some GET_PRICE
   \<and> cur (run conv_init (to_city @ [text_update tok_back, text_update tok_back])) = Some GET_DESCRIPTION
   \<and> entries (data (run conv_init (to_city @ [text_update tok_back, text_update tok_back]))) ''price''
      = Some [53, 48, 48]"
proof -
  have ne: "tok_back \<noteq> []" by (simp add: token_defs)
  show ?thesis
    unfolding run_append run_to_city
    by (simp add: run_def text_update_def dispatch_text[OF ne] handle_city_def handle_price_def
        finish_def put_def)
qed


section \<open>Confirmation with a field missing\<close>

lemma confirm_step:
  "handle_update \<lparr>cur = Some CONFIRM, data = ud\<rparr> \<lparr>message = TextMsg tok_confirm, effective_user = u\<rparr>
    = (if \<exists>k \<in> set required_fields. entries ud k = None
       then (\<lparr>cur = None, data = ud\<rparr>, [Reply MissingData])
       else case admin_text ud of
              Inl e \<Rightarrow> (\<lparr>cur = None, data = ud\<rparr>, [Reply GenericError])
            | Inr msg \<Rightarrow> (conv_init,
                [AdminMessage msg]
                @ (if photo_list ud \<noteq> [] then [AdminMediaGroup (take 10 (photo_list ud))] else [])
                @ [Reply Sent]))"
proof -
  have ne: "tok_confirm \<noteq> []" "tok_confirm \<noteq> tok_back" "tok_confirm \<noteq> tok_cancel_confirm"
    by (simp_all add: token_defs)
  have f: "(filter (\<lambda>k. entries ud k = None) required_fields \<noteq> [])
      = (\<exists>k \<in> set required_fields. entries ud k = None)"
    by (simp add: filter_empty_conv)
  show ?thesis
    unfolding dispatch_text[OF ne(1)]
    by (simp add: confirm_application_def ne f failed_def finish_def conv_init_def
        split: sum.splits)
qed

lemma admin_text_present:
  assumes "\<forall>k \<in> set (''user_name'' # required_fields). entries ud k \<noteq> None"
  shows "\<exists>msg. admin_text ud = Inr msg"
  using assms by (auto simp: admin_text_def listing_def required_fields_def)

text \<open>
  C10. When the confirm button arrives at the confirmation stage and a required field is
  missing, the user gets the notice of missing data, nothing is sent to the recipient,
  the conversation ends, and the data of the user are left as they are. The cancel
  button and a successful submission both end with the data cleared.
\<close>

theorem missing_field_keeps_data:
  "((\<exists>k \<in> set required_fields. entries ud k = None) \<longrightarrow>
      handle_update \<lparr>cur = Some CONFIRM, data = ud\<rparr> \<lparr>message = TextMsg tok_confirm, effective_user = u\<rparr>
      = (\<lparr>cur = None, data = ud\<rparr>, [Reply MissingData]))
   \<and> handle_update \<lparr>cur = Some CONFIRM, data = ud\<rparr> \<lparr>message = TextMsg tok_cancel_confirm, effective_user = u\<rparr>
      = (\<lparr>cur = None, data = ud_clear\<rparr>, [Reply Cancelled])
   \<and> ((\<forall>k \<in> set (''user_name'' # required_fields). entries ud k \<noteq> None) \<longrightarrow>
      fst (handle_update \<lparr>cur = Some CONFIRM, data = ud\<rparr> \<lparr>message = TextMsg tok_confirm, effective_user = u\<rparr>)
      = \<lparr>cur = None, data = ud_clear\<rparr>)"
proof (intro conjI impI)
  assume "\<exists>k \<in> set required_fields. entries ud k = None"
  then show "handle_update \<lparr>cur = Some CONFIRM, data = ud\<rparr> \<lparr>message = TextMsg tok_confirm, effective_user = u\<rparr>
      = (\<lparr>cur = None, data = ud\<rparr>, [Reply MissingData])"
    by (simp only: confirm_step if_True)
next
  have ne: "tok_cancel_confirm \<noteq> []" "tok_cancel_confirm \<noteq> tok_back"
    by (simp_all add: token_defs)
  show "handle_update \<lparr>cur = Some CONFIRM, data = ud\<rparr> \<lparr>message = TextMsg tok_cancel_confirm, effective_user = u\<rparr>
      = (\<lparr>cur = None, data = ud_clear\<rparr>, [Reply Cancelled])"
    unfolding dispatch_text[OF ne(1)]
    by (simp add: confirm_application_def ne cancel_def finish_def)
next
  assume a: "\<forall>k \<in> set (''user_name'' # required_fields). entries ud k \<noteq> None"
  then obtain msg where m: "admin_text ud = Inr msg" using admin_text_present by blast
  from a have neg: "(\<exists>k \<in> set required_fields. entries ud k = None) = False" by auto
  show "fst (handle_update \<lparr>cur = Some CONFIRM, data = ud\<rparr> \<lparr>message = TextMsg tok_confirm, effective_user = u\<rparr>)
      = \<lparr>cur = None, data = ud_clear\<rparr>"
    unfolding confirm_step neg by (simp add: m conv_init_def)
qed

theorem missing_field_keeps_data_witness:
  "(\<exists>k \<in> set required_fields. entries (put ud_clear ''city'' [84, 111]) k = None)
   \<and> handle_update \<lparr>cur = Some CONFIRM, data = put ud_clear ''city'' [84, 111]\<rparr> (text_update tok_confirm)
      = (\<lparr>cur = None, data = put ud_clear ''city'' [84, 111]\<rparr>, [Reply MissingData])
   \<and> complete (data (run conv_init to_confirm))
   \<and> fst (handle_update \<lparr>cur = Some CONFIRM, data = data (run conv_init to_confirm)\<rparr>
        (text_update tok_confirm)) = \<lparr>cur = None, data = ud_clear\<rparr>"
proof -
  have h: "\<exists>k \<in> set required_fields. entries (put ud_clear ''city'' [84, 111]) k = None"
    by (simp add: required_fields_def put_def ud_clear_def)
  have g: "complete (data (run conv_init to_confirm))"
    by (simp add: complete_def required_fields_def run_to_confirm run_to_city put_def)
  from missing_field_keeps_data [of "put ud_clear ''city'' [84, 111]" sample_user]
    missing_field_keeps_data [of "data (run conv_init to_confirm)" sample_user] h g
  show ?thesis unfolding text_update_def complete_def by blast
qed

section \<open>What holds at the confirmation\<close>

lemma summary_complete: "summary_text ud = Inr s \<Longrightarrow> complete ud"
  by (auto simp: summary_text_def listing_def complete_def required_fields_def
      split: option.splits)

lemma valid_address_nonempty: "validate_text t 5 200 \<Longrightarrow> t \<noteq> []"
  by (auto simp: validate_text_def strip_def)

lemma inv_text:
  assumes "session_inv \<lparr>cur = Some s, data = ud\<rparr>" and "t \<noteq> []"
  shows "session_inv (fst (handle_update \<lparr>cur = Some s, data = ud\<rparr> \<lparr>message = TextMsg t, effective_user = u\<rparr>))"
proof -
  have d: "tok_courier \<noteq> tok_pickup" by (simp add: token_defs)
  show ?thesis
  proof (cases s)
    case GET_CONTACTS
    with assms show ?thesis
      unfolding dispatch_text[OF assms(2)]
      by (auto simp: session_inv_def handle_contacts_def finish_def cancel_def failed_def
          pickup_has_address_def put_def dest: summary_complete split: sum.splits)
  next
    case CONFIRM
    with assms show ?thesis
      unfolding dispatch_text[OF assms(2)]
      by (auto simp: session_inv_def confirm_application_def finish_def cancel_def failed_def
          split: sum.splits)
  next
    case GET_DELIVERY
    with assms show ?thesis
      unfolding dispatch_text[OF assms(2)]
      by (auto simp: session_inv_def handle_delivery_def finish_def cancel_def d
          pickup_has_address_def put_def)
  next
    case GET_PICKUP_ADDRESS
    with assms show ?thesis
      unfolding dispatch_text[OF assms(2)]
      by (auto simp: session_inv_def handle_pickup_address_def finish_def cancel_def
          pickup_has_address_def put_def dest: valid_address_nonempty)
  next
    case CHOOSE_CATEGORY
    with assms show ?thesis
      unfolding dispatch_text[OF assms(2)]
      by (auto simp: session_inv_def handle_category_def finish_def cancel_def)
  next
    case GET_ITEM_NAME
    with assms show ?thesis
      unfolding dispatch_text[OF assms(2)]
      by (auto simp: session_inv_def handle_item_name_def finish_def cancel_def)
  next
    case GET_PHOTOS
    with assms show ?thesis
      unfolding dispatch_text[OF assms(2)]
      by (auto simp: session_inv_def handle_photos_text_def finish_def cancel_def)
  next
    case GET_DESCRIPTION
    with assms show ?thesis
      unfolding dispatch_text[OF assms(2)]
      by (auto simp: session_inv_def handle_description_def finish_def cancel_def)
  next
    case GET_PRICE
    with assms show ?thesis
      unfolding dispatch_text[OF assms(2)]
      by (auto simp: session_inv_def handle_price_def finish_def cancel_def failed_def
          split: sum.splits)
  next
    case GET_CITY
    with assms show ?thesis
      unfolding dispatch_text[OF assms(2)]
      by (auto simp: session_inv_def handle_city_def finish_def cancel_def)
  next
    case START
    with assms show ?thesis
      unfolding dispatch_text[OF assms(2)]
      by (auto simp: session_inv_def finish_def cancel_def)
  next
    case END
    with assms show ?thesis
      unfolding dispatch_text[OF assms(2)]
      by (auto simp: session_inv_def finish_def cancel_def)
  qed
qed

lemma photos_states:
  "fst (handle_photos m ud) = GET_ITEM_NAME \<or> fst (handle_photos m ud) = END
   \<or> fst (handle_photos m ud) = GET_PHOTOS \<or> fst (handle_photos m ud) = GET_DESCRIPTION"
  by (simp add: handle_photos_def handle_photos_text_def handle_photos_photo_def cancel_def
      Let_def split: option.splits list.splits)

lemma state_handler_other:
  assumes "plain_text m = None" and "state_handler s \<lparr>message = m, effective_user = u\<rparr> ud = Some r"
  shows "r = handle_photos m ud"
  using assms by (simp add: state_handler_def split: if_splits)

lemma inv_finish:
  assumes "fst r \<noteq> GET_CONTACTS" and "fst r \<noteq> CONFIRM"
  shows "session_inv (fst (finish r))"
  using assms by (cases r) (simp add: finish_def session_inv_def)

lemma inv_other:
  assumes i: "session_inv \<lparr>cur = cs, data = ud\<rparr>" and p: "plain_text m = None"
  shows "session_inv (fst (handle_update \<lparr>cur = cs, data = ud\<rparr> \<lparr>message = m, effective_user = u\<rparr>))"
proof (cases "is_command cmd_start m")
  case True
  then show ?thesis
    by (simp add: handle_update_def inv_finish start_def)
next
  case nostart: False
  show ?thesis
  proof (cases cs)
    case None
    with i nostart show ?thesis by (simp add: handle_update_def)
  next
    case (Some s)
    show ?thesis
    proof (cases "state_handler s \<lparr>message = m, effective_user = u\<rparr> ud")
      case None
      with i nostart Some show ?thesis
        by (simp add: handle_update_def inv_finish cancel_def)
    next
      case r: (Some r)
      from state_handler_other[OF p r] have "r = handle_photos m ud" .
      with photos_states[of m ud] have "fst r \<noteq> GET_CONTACTS" "fst r \<noteq> CONFIRM" by auto
      then have "session_inv (fst (finish r))" by (rule inv_finish)
      with nostart Some r show ?thesis by (simp add: handle_update_def)
    qed
  qed
qed

lemma plain_text_Some: "plain_text m = Some t \<Longrightarrow> m = TextMsg t \<and> t \<noteq> []"
  by (induction m rule: plain_text.induct) auto

lemma inv_step: "session_inv c \<Longrightarrow> session_inv (fst (handle_update c u))"
proof -
  assume i: "session_inv c"
  obtain cs ud where c: "c = \<lparr>cur = cs, data = ud\<rparr>" by (cases c)
  obtain m who where u: "u = \<lparr>message = m, effective_user = who\<rparr>" by (cases u)
  show ?thesis
  proof (cases "plain_text m")
    case None
    with i show ?thesis unfolding c u by (rule inv_other)
  next
    case (Some t)
    then have m: "m = TextMsg t" and ne: "t \<noteq> []"
      by (simp_all add: plain_text_Some)
    show ?thesis
    proof (cases cs)
      case None
      with i show ?thesis unfolding c u m
        by (simp add: handle_update_def)
    next
      case s: (Some s)
      from i have "session_inv \<lparr>cur = Some s, data = ud\<rparr>" unfolding c s .
      from inv_text[OF this ne] show ?thesis unfolding c u m s .
    qed
  qed
qed

lemma reachable_inv: "reachable c \<Longrightarrow> session_inv c"
proof (induction rule: reachable.induct)
  case reachable_init
  show ?case by (simp add: session_inv_def conv_init_def)
next
  case (reachable_step c u)
  then show ?case by (simp add: inv_step)
qed

section \<open>The submission\<close>

lemma sub_here: "sublist x (x @ s)"
  by simp

lemma sub_skip: "sublist x y \<Longrightarrow> sublist x (p @ y)"
  by (auto simp: sublist_def) (metis append.assoc)

lemma listing_contains:
  assumes "listing h s f ud = Inr msg"
  shows "(\<forall>k \<in> set (''user_name'' # required_fields). \<exists>v. entries ud k = Some v \<and> sublist v msg)
    \<and> sublist (pickup_part ud) msg"
proof -
  from assms obtain un it ca pr ci de co where
    e: "entries ud ''user_name'' = Some un" "entries ud ''item_name'' = Some it"
       "entries ud ''category'' = Some ca" "entries ud ''price'' = Some pr"
       "entries ud ''city'' = Some ci" "entries ud ''delivery'' = Some de"
       "entries ud ''contacts'' = Some co"
    and msg: "msg = h @ s @ un @ [10] @ lbl_item @ it @ [10] @ lbl_category @ ca @ [10]
       @ lbl_description @ description_part ud @ [10] @ lbl_price @ pr @ lbl_rub
       @ lbl_city @ ci @ [10] @ lbl_delivery @ de @ pickup_part ud @ lbl_contacts @ co @ f"
    by (auto simp: listing_def split: option.splits)
  have "sublist un msg" unfolding msg by (rule sub_here | rule sub_skip)+
  moreover have "sublist it msg" unfolding msg by (rule sub_here | rule sub_skip)+
  moreover have "sublist ca msg" unfolding msg by (rule sub_here | rule sub_skip)+
  moreover have "sublist pr msg" unfolding msg by (rule sub_here | rule sub_skip)+
  moreover have "sublist ci msg" unfolding msg by (rule sub_here | rule sub_skip)+
  moreover have "sublist de msg" unfolding msg by (rule sub_here | rule sub_skip)+
  moreover have "sublist co msg" unfolding msg by (rule sub_here | rule sub_skip)+
  moreover have "sublist (pickup_part ud) msg" unfolding msg by (rule sub_here | rule sub_skip)+
  ultimately show ?thesis by (simp add: required_fields_def e)
qed

lemma pickup_part_contains:
  assumes "entries ud ''pickup_address'' = Some a" and "sublist (pickup_part ud) msg"
  shows "sublist a msg"
proof (cases "a = []")
  case True
  then show ?thesis by simp
next
  case False
  with assms(1) have "pickup_part ud = lbl_pickup @ a" by (simp add: pickup_part_def)
  then have "sublist a (pickup_part ud)" by simp
  from this assms(2) show ?thesis by (rule sublist_order.order.trans)
qed

lemma complete_admin_text: "complete ud \<Longrightarrow> \<exists>msg. admin_text ud = Inr msg"
  by (auto simp: complete_def admin_text_def listing_def required_fields_def)

text \<open>
  C4. A session that some history of updates has led to the confirmation holds the
  sender and the six required fields, and a pickup address when the delivery is by
  pickup. On the confirm button exactly one text is sent to the recipient; it contains
  the value of each required field, and the pickup address when the delivery is by
  pickup. The photos sent to the recipient are the first ten of the stored ones, so
  their number is the minimum of the number stored and 10. The user is told that the
  listing was sent, the data are cleared and the conversation ends.
\<close>

theorem confirm_dispatches_submission:
  assumes "reachable c" and "cur c = Some CONFIRM"
  shows "\<exists>msg acts.
      handle_update c \<lparr>message = TextMsg tok_confirm, effective_user = u\<rparr> = (conv_init, acts)
    \<and> admin_messages acts = [msg]
    \<and> image_refs acts = take 10 (photo_list (data c))
    \<and> length (image_refs acts) = min (length (photo_list (data c))) 10
    \<and> (\<forall>k \<in> set required_fields. \<exists>v. entries (data c) k = Some v \<and> sublist v msg)
    \<and> (entries (data c) ''delivery'' = Some tok_pickup \<longrightarrow>
         (\<exists>a. entries (data c) ''pickup_address'' = Some a \<and> a \<noteq> [] \<and> sublist a msg))
    \<and> last acts = Reply Sent"
proof -
  obtain ud where c: "c = \<lparr>cur = Some CONFIRM, data = ud\<rparr>"
    using assms(2) by (cases c) simp
  from reachable_inv[OF assms(1)] have comp: "complete ud" and pick: "pickup_has_address ud"
    by (simp_all add: session_inv_def c)
  from comp obtain msg where m: "admin_text ud = Inr msg"
    using complete_admin_text by blast
  from comp have nomiss: "(\<exists>k \<in> set required_fields. entries ud k = None) = False"
    by (auto simp: complete_def)
  define acts where "acts = [AdminMessage msg]
     @ (if photo_list ud \<noteq> [] then [AdminMediaGroup (take 10 (photo_list ud))] else [])
     @ [Reply Sent]"
  have step: "handle_update c \<lparr>message = TextMsg tok_confirm, effective_user = u\<rparr> = (conv_init, acts)"
    unfolding c confirm_step nomiss acts_def by (simp add: m)
  have one: "admin_messages acts = [msg]" by (simp add: acts_def)
  have refs: "image_refs acts = take 10 (photo_list ud)" by (simp add: acts_def)
  have len: "length (image_refs acts) = min (length (photo_list ud)) 10"
    unfolding refs by (simp add: min.commute)
  from listing_contains[OF m[unfolded admin_text_def]]
  have flds: "\<forall>k \<in> set required_fields. \<exists>v. entries ud k = Some v \<and> sublist v msg"
    and pp: "sublist (pickup_part ud) msg" by simp_all
  have pk: "entries ud ''delivery'' = Some tok_pickup \<longrightarrow>
         (\<exists>a. entries ud ''pickup_address'' = Some a \<and> a \<noteq> [] \<and> sublist a msg)"
  proof
    assume "entries ud ''delivery'' = Some tok_pickup"
    with pick obtain a where a: "entries ud ''pickup_address'' = Some a" "a \<noteq> []"
      by (auto simp: pickup_has_address_def)
    with pickup_part_contains[OF a(1) pp] show "\<exists>a. entries ud ''pickup_address'' = Some a \<and> a \<noteq> [] \<and> sublist a msg"
      by simp
  qed
  have lst: "last acts = Reply Sent" by (simp add: acts_def)
  from step one refs len flds pk lst show ?thesis unfolding c by auto
qed

theorem confirm_dispatches_submission_witness:
  "reachable (run conv_init to_confirm) \<and> cur (run conv_init to_confirm) = Some CONFIRM
   \<and> (\<exists>msg acts.
        handle_update (run conv_init to_confirm) (text_update tok_confirm) = (conv_init, acts)
      \<and> admin_messages acts = [msg]
      \<and> image_refs acts = [[65]]
      \<and> sublist [79, 108, 100, 32, 82, 117, 98, 108, 101] msg
      \<and> sublist [49, 32, 77, 97, 105, 110, 32, 83, 116] msg)"
proof -
  have r: "reachable (run conv_init to_confirm)"
    by (rule reachable_run) (rule reachable_init)
  have s: "cur (run conv_init to_confirm) = Some CONFIRM"
    by (simp add: run_to_confirm)
  have d: "photo_list (data (run conv_init to_confirm)) = [[65]]"
    "entries (data (run conv_init to_confirm)) ''item_name'' = Some [79, 108, 100, 32, 82, 117, 98, 108, 101]"
    "entries (data (run conv_init to_confirm)) ''delivery'' = Some tok_pickup"
    "entries (data (run conv_init to_confirm)) ''pickup_address'' = Some [49, 32, 77, 97, 105, 110, 32, 83, 116]"
    by (simp_all add: run_to_confirm run_to_city put_def photo_list_def)
  from confirm_dispatches_submission [OF r s, of sample_user]
  obtain msg acts where
    1: "handle_update (run conv_init to_confirm) \<lparr>message = TextMsg tok_confirm, effective_user = sample_user\<rparr>
        = (conv_init, acts)"
    and 2: "admin_messages acts = [msg]"
    and 3: "image_refs acts = take 10 (photo_list (data (run conv_init to_confirm)))"
    and 4: "\<forall>k \<in> set required_fields. \<exists>v. entries (data (run conv_init to_confirm)) k = Some v \<and> sublist v msg"
    and 5: "entries (data (run conv_init to_confirm)) ''delivery'' = Some tok_pickup \<longrightarrow>
         (\<exists>a. entries (data (run conv_init to_confirm)) ''pickup_address'' = Some a \<and> a \<noteq> [] \<and> sublist a msg)"
    by blast
  from 4 d(2) have 6: "sublist [79, 108, 100, 32, 82, 117, 98, 108, 101] msg"
    by (auto simp: required_fields_def)
  from 5 d(3) d(4) have 7: "sublist [49, 32, 77, 97, 105, 110, 32, 83, 116] msg"
    by auto
  from 3 d(1) have 8: "image_refs acts = [[65]]" by simp
  from r s 1 2 6 7 8 show ?thesis unfolding text_update_def by blast
qed

section \<open>Photos\<close>

lemma photo_step:
  assumes "p \<notin> set (photo_list ud)"
  shows "handle_update \<lparr>cur = Some GET_PHOTOS, data = ud\<rparr> \<lparr>message = PhotoMsg [p], effective_user = u\<rparr>
    = (\<lparr>cur = Some GET_PHOTOS, data = ud\<lparr>photos := Some (photo_list ud @ [p])\<rparr>\<rparr>,
       [Reply (if length (photo_list ud) < 10 then PhotoReceived (Suc (length (photo_list ud)))
               else PhotoLimit)])"
  using assms
  by (auto simp: dispatch_photo handle_photos_photo_def finish_def Let_def)

lemma photo_list_upd: "photo_list (ud\<lparr>photos := Some ps\<rparr>) = ps"
  by (simp add: photo_list_def)

lemma run_photos:
  assumes "distinct ps" and "set ps \<inter> set (photo_list ud) = {}" and "ps \<noteq> []"
  shows "run \<lparr>cur = Some GET_PHOTOS, data = ud\<rparr>
           (map (\<lambda>p. \<lparr>message = PhotoMsg [p], effective_user = u\<rparr>) ps)
    = \<lparr>cur = Some GET_PHOTOS, data = ud\<lparr>photos := Some (photo_list ud @ ps)\<rparr>\<rparr>"
  using assms
proof (induction ps arbitrary: ud)
  case Nil
  then show ?case by simp
next
  case (Cons p qs)
  from Cons.prems have p: "p \<notin> set (photo_list ud)" by auto
  let ?ud = "ud\<lparr>photos := Some (photo_list ud @ [p])\<rparr>"
  have first: "run \<lparr>cur = Some GET_PHOTOS, data = ud\<rparr>
           (map (\<lambda>p. \<lparr>message = PhotoMsg [p], effective_user = u\<rparr>) (p # qs))
     = run \<lparr>cur = Some GET_PHOTOS, data = ?ud\<rparr>
           (map (\<lambda>p. \<lparr>message = PhotoMsg [p], effective_user = u\<rparr>) qs)"
    by (simp add: run_def photo_step[OF p])
  show ?case
  proof (cases "qs = []")
    case True
    then show ?thesis unfolding first by (simp add: run_def)
  next
    case False
    from Cons.prems have "distinct qs" "set qs \<inter> set (photo_list ?ud) = {}"
      by (auto simp: photo_list_upd)
    from Cons.IH[OF this False] show ?thesis
      unfolding first by (simp add: photo_list_upd)
  qed
qed

text \<open>
  C1 as the code has it. In the photo stage every photo whose file id is not stored yet
  is appended to the list, whatever the length of the list: a run of different new
  photos leaves all of them stored, eleven as well as ten. The count decides the reply
  only: when ten or more are stored already, the new photo is still appended and is
  answered with the notice of the limit; the stage stays the photo stage and the
  conversation goes on. (The cut to ten is made when the submission is sent.)
\<close>

theorem photos_kept_beyond_ten:
  "(distinct ps \<and> set ps \<inter> set (photo_list ud) = {} \<and> ps \<noteq> [] \<longrightarrow>
      run \<lparr>cur = Some GET_PHOTOS, data = ud\<rparr>
        (map (\<lambda>p. \<lparr>message = PhotoMsg [p], effective_user = u\<rparr>) ps)
      = \<lparr>cur = Some GET_PHOTOS, data = ud\<lparr>photos := Some (photo_list ud @ ps)\<rparr>\<rparr>)
   \<and> (p \<notin> set (photo_list ud) \<and> 10 \<le> length (photo_list ud) \<longrightarrow>
      handle_update \<lparr>cur = Some GET_PHOTOS, data = ud\<rparr> \<lparr>message = PhotoMsg [p], effective_user = u\<rparr>
      = (\<lparr>cur = Some GET_PHOTOS, data = ud\<lparr>photos := Some (photo_list ud @ [p])\<rparr>\<rparr>,
         [Reply PhotoLimit]))"
proof (intro conjI impI)
  assume "distinct ps \<and> set ps \<inter> set (photo_list ud) = {} \<and> ps \<noteq> []"
  then show "run \<lparr>cur = Some GET_PHOTOS, data = ud\<rparr>
        (map (\<lambda>p. \<lparr>message = PhotoMsg [p], effective_user = u\<rparr>) ps)
      = \<lparr>cur = Some GET_PHOTOS, data = ud\<lparr>photos := Some (photo_list ud @ ps)\<rparr>\<rparr>"
    by (simp add: run_photos)
next
  assume a: "p \<notin> set (photo_list ud) \<and> 10 \<le> length (photo_list ud)"
  then have "\<not> length (photo_list ud) < 10" by simp
  with a show "handle_update \<lparr>cur = Some GET_PHOTOS, data = ud\<rparr> \<lparr>message = PhotoMsg [p], effective_user = u\<rparr>
      = (\<lparr>cur = Some GET_PHOTOS, data = ud\<lparr>photos := Some (photo_list ud @ [p])\<rparr>\<rparr>,
         [Reply PhotoLimit])"
    by (simp add: photo_step)
qed

theorem photos_kept_beyond_ten_witness:
  "distinct eleven_refs \<and> set eleven_refs \<inter> set (photo_list (ud_clear\<lparr>photos := Some []\<rparr>)) = {}
   \<and> eleven_refs \<noteq> []
   \<and> run \<lparr>cur = Some GET_PHOTOS, data = ud_clear\<lparr>photos := Some []\<rparr>\<rparr>
        (map (\<lambda>p. \<lparr>message = PhotoMsg [p], effective_user = sample_user\<rparr>) eleven_refs)
      = \<lparr>cur = Some GET_PHOTOS, data = ud_clear\<lparr>photos := Some eleven_refs\<rparr>\<rparr>
   \<and> [75] \<notin> set (photo_list (ud_clear\<lparr>photos := Some (butlast eleven_refs)\<rparr>))
   \<and> 10 \<le> length (photo_list (ud_clear\<lparr>photos := Some (butlast eleven_refs)\<rparr>))
   \<and> handle_update \<lparr>cur = Some GET_PHOTOS, data = ud_clear\<lparr>photos := Some (butlast eleven_refs)\<rparr>\<rparr>
        \<lparr>message = PhotoMsg [[75]], effective_user = sample_user\<rparr>
      = (\<lparr>cur = Some GET_PHOTOS, data = ud_clear\<lparr>photos := Some eleven_refs\<rparr>\<rparr>, [Reply PhotoLimit])"
proof -
  have h1: "distinct eleven_refs \<and> set eleven_refs \<inter> set (photo_list (ud_clear\<lparr>photos := Some []\<rparr>)) = {}
     \<and> eleven_refs \<noteq> []"
    by (simp add: eleven_refs_def photo_list_upd)
  have h2: "[75] \<notin> set (photo_list (ud_clear\<lparr>photos := Some (butlast eleven_refs)\<rparr>))
     \<and> 10 \<le> length (photo_list (ud_clear\<lparr>photos := Some (butlast eleven_refs)\<rparr>))"
    by (simp add: eleven_refs_def photo_list_upd)
  have e: "butlast eleven_refs @ [[75]] = eleven_refs" by (simp add: eleven_refs_def)
  from photos_kept_beyond_ten [where ps = eleven_refs and ud = "ud_clear\<lparr>photos := Some []\<rparr>"
      and u = sample_user]
    photos_kept_beyond_ten [where ud = "ud_clear\<lparr>photos := Some (butlast eleven_refs)\<rparr>"
      and p = "[75]" and u = sample_user]
    h1 h2
  show ?thesis by (simp add: photo_list_upd e)
qed

text \<open>
  Eleven different photos sent to a session that has just reached the photo stage are
  all stored.
\<close>

theorem eleven_photos_counterexample:
  "cur (run conv_init (to_photos @ eleven_photos)) = Some GET_PHOTOS
   \<and> photos (data (run conv_init (to_photos @ eleven_photos))) = Some eleven_refs
   \<and> length eleven_refs = 11"
proof -
  have h: "distinct eleven_refs" "eleven_refs \<noteq> []" "length eleven_refs = 11"
    by (simp_all add: eleven_refs_def)
  have m: "eleven_photos = map (\<lambda>p. \<lparr>message = PhotoMsg [p], effective_user = sample_user\<rparr>) eleven_refs"
    by (simp add: eleven_photos_def photo_update_def)
  let ?ud = "(put (put (put ud_clear ''category'' [67, 111, 105, 110, 115])
                ''item_name'' [79, 108, 100, 32, 82, 117, 98, 108, 101])
                ''user_name'' [65, 110, 110, 32, 66, 32, 40, 64, 97, 110, 110, 41])
             \<lparr>photos := Some []\<rparr>"
  have "run \<lparr>cur = Some GET_PHOTOS, data = ?ud\<rparr>
          (map (\<lambda>p. \<lparr>message = PhotoMsg [p], effective_user = sample_user\<rparr>) eleven_refs)
    = \<lparr>cur = Some GET_PHOTOS, data = ?ud\<lparr>photos := Some (photo_list ?ud @ eleven_refs)\<rparr>\<rparr>"
    by (rule run_photos) (simp_all add: h photo_list_upd)
  then show ?thesis
    unfolding run_append run_to_photos m by (simp add: h photo_list_upd)
qed

section \<open>The keys of the data\<close>




lemma keys_photos_None: "keys (ud\<lparr>photos := None\<rparr>) \<subseteq> keys ud"
  by (auto simp: keys_def)





lemma put_stores:
  "entries (put ud k v) k = Some v \<and> (k' \<noteq> k \<longrightarrow> entries (put ud k v) k' = entries ud k')
   \<and> photos (put ud k v) = photos ud"
  by (simp add: put_def)









end
